theory Spec2Isabelle
  imports Main "HOL-Library.Word" "HOL-Library.Monad_Syntax"
begin

section \<open>Data model of stimer.c\<close>

text \<open>
  All integers of the library are \<open>uint32_t\<close>, modelled as 32-bit words whose arithmetic
  wraps around. Objects obtained from \<open>malloc\<close> live in an explicit store: a pointer is an
  address, \<open>NULL\<close> is \<open>None\<close>, and reading through an address that holds no object is a
  fault. Every operation returns \<open>None\<close> when it faults or does not return, and
  \<open>Some\<close> of the new store (and its result) otherwise.
\<close>

type_synonym u32 = "32 word"
type_synonym timer_ptr = nat
type_synonym ctx_ptr = nat

text \<open>\<open>struct stimer_duration\<close> (declared in stimer.h).\<close>

record stimer_duration =
  seconds :: u32
  nanoseconds :: u32

text \<open>
  \<open>struct tm_math\<close> belongs to the timermath library. The timer code never looks inside
  it: it only hands it to \<open>tm_get_diff\<close>. A context's counter math is therefore
  represented by the function \<open>tm_get_diff(&ctx->tm, lhs, rhs)\<close> it determines; the
  \<open>int32_t\<close> result is kept as its two's complement word and read with the signed
  order \<open><s\<close>.
\<close>

type_synonym tm_math = "u32 \<Rightarrow> u32 \<Rightarrow> u32"

text \<open>\<open>struct stimer\<close>. The field \<open>next\<close> is called \<open>nxt\<close> here.\<close>

record stimer =
  ctx :: "ctx_ptr option"
  nxt :: "timer_ptr option"
  checkpoint :: u32
  expire_interval :: stimer_duration
  elapsed :: stimer_duration
  is_running :: bool

text \<open>
  \<open>struct stimer_ctx\<close>. The time function \<open>get_time_fn\<close> and its \<open>hint\<close> are caller
  code. Every public operation calls \<open>get_time_fn(hint)\<close> at most once, so the sample it
  returns during a call is the argument \<open>now\<close> of that operation.
\<close>

record stimer_ctx =
  root :: "timer_ptr option"
  tm :: tm_math
  ns_per_count :: u32

record heap =
  timers :: "timer_ptr \<rightharpoonup> stimer"
  ctxs :: "ctx_ptr \<rightharpoonup> stimer_ctx"

definition put_timer :: "heap \<Rightarrow> timer_ptr \<Rightarrow> stimer \<Rightarrow> heap" where
  "put_timer h p ts = h\<lparr>timers := (timers h)(p \<mapsto> ts)\<rparr>"

definition put_ctx :: "heap \<Rightarrow> ctx_ptr \<Rightarrow> stimer_ctx \<Rightarrow> heap" where
  "put_ctx h c cx = h\<lparr>ctxs := (ctxs h)(c \<mapsto> cx)\<rparr>"

text \<open>
  Modelled from the spec: \<open>tm_initialize\<close> and \<open>tm_get_diff\<close> of timermath/timermath.h are
  not among the sources. Section 8 of the specification gives the difference for a
  counter with modulus \<open>M\<close>: for samples \<open>a\<close> then \<open>b\<close> it is \<open>(M + 1 - a) + b\<close> when
  \<open>b < a\<close> and \<open>b - a\<close> otherwise.
\<close>

definition tm_initialize :: "u32 \<Rightarrow> tm_math" where
  "tm_initialize max_time =
     (\<lambda>current previous.
        if current < previous then (max_time + 1 - previous) + current
        else current - previous)"

section \<open>Private functions\<close>

subsection \<open>Timer linking\<close>

definition link_timer :: "heap \<Rightarrow> ctx_ptr \<Rightarrow> timer_ptr \<Rightarrow> heap option" where
  "link_timer h c p = do {
     ts \<leftarrow> timers h p;
     cx \<leftarrow> ctxs h c;
     let ts1 = ts\<lparr>ctx := Some c\<rparr>;
     let ts2 = (if root cx = None then ts1\<lparr>nxt := None\<rparr> else ts1\<lparr>nxt := root cx\<rparr>);
     Some (put_ctx (put_timer h p ts2) c (cx\<lparr>root := Some p\<rparr>))
   }"

text \<open>The \<open>for\<close> loop of \<open>unlink_timer\<close>; the loop variable \<open>prev\<close> is the first argument.\<close>

partial_function (option) unlink_find ::
  "timer_ptr option \<Rightarrow> heap \<Rightarrow> timer_ptr \<Rightarrow> timer_ptr option \<Rightarrow> heap option" where
  "unlink_find prev h p next_p =
     (case prev of
        None \<Rightarrow> Some h
      | Some q \<Rightarrow> do {
          qs \<leftarrow> timers h q;
          if nxt qs = Some p then Some (put_timer h q (qs\<lparr>nxt := next_p\<rparr>))
          else unlink_find (nxt qs) h p next_p
        })"

declare unlink_find.simps [code]

definition unlink_timer :: "heap \<Rightarrow> timer_ptr \<Rightarrow> heap option" where
  "unlink_timer h p = do {
     ts \<leftarrow> timers h p;
     let next_p = nxt ts;
     let c = ctx ts;
     let h1 = put_timer h p (ts\<lparr>nxt := None, ctx := None\<rparr>);
     case c of
       None \<Rightarrow> Some h1
     | Some cp \<Rightarrow> do {
         cx \<leftarrow> ctxs h1 cp;
         if root cx = Some p then Some (put_ctx h1 cp (cx\<lparr>root := next_p\<rparr>))
         else unlink_find (root cx) h1 p next_p
       }
   }"

subsection \<open>Timer math\<close>

definition advance_timer_duration :: "stimer_duration \<Rightarrow> u32 \<Rightarrow> stimer_duration" where
  "advance_timer_duration td ns_advance =
     (let headroom = 1000000000 - nanoseconds td in
      if ns_advance < headroom then td\<lparr>nanoseconds := nanoseconds td + ns_advance\<rparr>
      else td\<lparr>seconds := seconds td + 1, nanoseconds := ns_advance - headroom\<rparr>)"

definition advance_and_checkpoint :: "heap \<Rightarrow> timer_ptr \<Rightarrow> tm_math \<Rightarrow> u32 \<Rightarrow> heap option" where
  "advance_and_checkpoint h p tmm now = do {
     ts \<leftarrow> timers h p;
     if is_running ts then
       let diff = tmm now (checkpoint ts) in
       if 0 <s diff then do {
         c \<leftarrow> ctx ts;
         cx \<leftarrow> ctxs h c;
         let ns_advance = diff * ns_per_count cx;
         Some (put_timer h p
                 (ts\<lparr>elapsed := advance_timer_duration (elapsed ts) ns_advance,
                     checkpoint := now\<rparr>))
       } else Some h
     else Some h
   }"

definition advance_and_checkpoint_2 :: "heap \<Rightarrow> timer_ptr \<Rightarrow> u32 \<Rightarrow> heap option" where
  "advance_and_checkpoint_2 h p now = do {
     ts \<leftarrow> timers h p;
     case ctx ts of
       None \<Rightarrow> Some h
     | Some c \<Rightarrow> do {
         cx \<leftarrow> ctxs h c;
         advance_and_checkpoint h p (tm cx) now
       }
   }"

subsection \<open>Expire timer helpers\<close>

definition start_and_checkpoint_timer :: "heap \<Rightarrow> timer_ptr \<Rightarrow> u32 \<Rightarrow> heap option" where
  "start_and_checkpoint_timer h p now = do {
     ts \<leftarrow> timers h p;
     case ctx ts of
       None \<Rightarrow> Some h
     | Some c \<Rightarrow> do {
         _ \<leftarrow> ctxs h c;
         Some (put_timer h p
                 (ts\<lparr>checkpoint := now, is_running := True,
                     elapsed := (elapsed ts)\<lparr>seconds := 0, nanoseconds := 0\<rparr>\<rparr>))
       }
   }"

definition timer_duration_ge :: "stimer_duration \<Rightarrow> stimer_duration \<Rightarrow> bool" where
  "timer_duration_ge lhs rhs =
     (if seconds rhs < seconds lhs then True
      else if seconds lhs = seconds rhs then
        (if nanoseconds rhs \<le> nanoseconds lhs then True else False)
      else False)"

section \<open>Public functions\<close>

subsection \<open>Timer context\<close>

text \<open>
  The outcome of \<open>malloc\<close> is an argument: \<open>None\<close> when the allocation fails, the
  address of the new object otherwise.
\<close>

definition stimer_alloc_context ::
  "heap \<Rightarrow> ctx_ptr option \<Rightarrow> u32 \<Rightarrow> u32 \<Rightarrow> heap \<times> ctx_ptr option" where
  "stimer_alloc_context h m max_time nspc =
     (case m of
        None \<Rightarrow> (h, None)
      | Some c \<Rightarrow>
          (put_ctx h c \<lparr>root = None, tm = tm_initialize max_time, ns_per_count = nspc\<rparr>,
           Some c))"

text \<open>The \<open>while\<close> loop of \<open>stimer_free_context\<close>.\<close>

partial_function (option) free_context_loop :: "heap \<Rightarrow> ctx_ptr \<Rightarrow> heap option" where
  "free_context_loop h c = do {
     cx \<leftarrow> ctxs h c;
     case root cx of
       None \<Rightarrow> Some h
     | Some r \<Rightarrow> do {
         h1 \<leftarrow> unlink_timer h r;
         free_context_loop h1 c
       }
   }"

declare free_context_loop.simps [code]

definition stimer_free_context :: "heap \<Rightarrow> ctx_ptr option \<Rightarrow> heap option" where
  "stimer_free_context h cp =
     (case cp of
        None \<Rightarrow> Some h
      | Some c \<Rightarrow> do {
          h1 \<leftarrow> free_context_loop h c;
          Some (h1\<lparr>ctxs := (ctxs h1)(c := None)\<rparr>)
        })"

text \<open>The \<open>for\<close> loop of \<open>stimer_execute_context\<close>; the loop variable \<open>ts\<close> is the first
  argument.\<close>

partial_function (option) execute_loop ::
  "timer_ptr option \<Rightarrow> heap \<Rightarrow> tm_math \<Rightarrow> u32 \<Rightarrow> heap option" where
  "execute_loop tsp h tmm now =
     (case tsp of
        None \<Rightarrow> Some h
      | Some p \<Rightarrow> do {
          h1 \<leftarrow> advance_and_checkpoint h p tmm now;
          ts \<leftarrow> timers h1 p;
          execute_loop (nxt ts) h1 tmm now
        })"

declare execute_loop.simps [code]

definition stimer_execute_context :: "heap \<Rightarrow> ctx_ptr option \<Rightarrow> u32 \<Rightarrow> heap option" where
  "stimer_execute_context h cp now =
     (case cp of
        None \<Rightarrow> Some h
      | Some c \<Rightarrow> do {
          cx \<leftarrow> ctxs h c;
          execute_loop (root cx) h (tm cx) now
        })"

subsection \<open>Timer\<close>

definition stimer_alloc ::
  "heap \<Rightarrow> ctx_ptr option \<Rightarrow> timer_ptr option \<Rightarrow> (heap \<times> timer_ptr option) option" where
  "stimer_alloc h cp m =
     (case cp of
        None \<Rightarrow> Some (h, None)
      | Some c \<Rightarrow>
          (case m of
             None \<Rightarrow> Some (h, None)
           | Some p \<Rightarrow> do {
               let ts = \<lparr>ctx = None, nxt = None, checkpoint = 0,
                         expire_interval = \<lparr>seconds = 0, nanoseconds = 0\<rparr>,
                         elapsed = \<lparr>seconds = 0, nanoseconds = 0\<rparr>,
                         is_running = False\<rparr>;
               h1 \<leftarrow> link_timer (put_timer h p ts) c p;
               Some (h1, Some p)
             }))"

definition stimer_free :: "heap \<Rightarrow> timer_ptr option \<Rightarrow> heap option" where
  "stimer_free h tsp =
     (case tsp of
        None \<Rightarrow> Some h
      | Some p \<Rightarrow> do {
          h1 \<leftarrow> unlink_timer h p;
          Some (h1\<lparr>timers := (timers h1)(p := None)\<rparr>)
        })"

subsection \<open>Elapsed timer functions\<close>

definition stimer_start :: "heap \<Rightarrow> timer_ptr option \<Rightarrow> u32 \<Rightarrow> heap option" where
  "stimer_start h tsp now =
     (case tsp of
        None \<Rightarrow> Some h
      | Some p \<Rightarrow> start_and_checkpoint_timer h p now)"

definition stimer_stop :: "heap \<Rightarrow> timer_ptr option \<Rightarrow> u32 \<Rightarrow> heap option" where
  "stimer_stop h tsp now =
     (case tsp of
        None \<Rightarrow> Some h
      | Some p \<Rightarrow> do {
          ts \<leftarrow> timers h p;
          case ctx ts of
            None \<Rightarrow> Some h
          | Some c \<Rightarrow>
              if is_running ts then do {
                cx \<leftarrow> ctxs h c;
                h1 \<leftarrow> advance_and_checkpoint h p (tm cx) now;
                ts1 \<leftarrow> timers h1 p;
                Some (put_timer h1 p (ts1\<lparr>is_running := False\<rparr>))
              } else Some h
        })"

text \<open>
  The out-parameter \<open>t\<close> is the caller's struct: \<open>None\<close> for a \<open>NULL\<close> pointer,
  its contents otherwise. The contents after the call are returned.
\<close>

definition stimer_get_elapsed_time ::
  "heap \<Rightarrow> timer_ptr option \<Rightarrow> stimer_duration option \<Rightarrow> u32 \<Rightarrow>
   (heap \<times> stimer_duration option) option" where
  "stimer_get_elapsed_time h tsp t now =
     (case tsp of
        None \<Rightarrow> Some (h, t)
      | Some p \<Rightarrow> do {
          ts \<leftarrow> timers h p;
          h1 \<leftarrow> (if is_running ts \<and> ctx ts \<noteq> None then do {
                   c \<leftarrow> ctx ts;
                   cx \<leftarrow> ctxs h c;
                   advance_and_checkpoint h p (tm cx) now
                 } else Some h);
          ts1 \<leftarrow> timers h1 p;
          _ \<leftarrow> t;
          Some (h1, Some (elapsed ts1))
        })"

subsection \<open>Expire timer functions\<close>

definition set_expire_interval :: "heap \<Rightarrow> timer_ptr \<Rightarrow> stimer_duration \<Rightarrow> heap option" where
  "set_expire_interval h p d = do {
     ts \<leftarrow> timers h p;
     Some (put_timer h p (ts\<lparr>expire_interval := d\<rparr>))
   }"

definition stimer_expire_from_now ::
  "heap \<Rightarrow> timer_ptr option \<Rightarrow> stimer_duration option \<Rightarrow> u32 \<Rightarrow> heap option" where
  "stimer_expire_from_now h tsp t now =
     (case tsp of
        None \<Rightarrow> Some h
      | Some p \<Rightarrow>
          (case t of
             None \<Rightarrow> Some h
           | Some d \<Rightarrow> do {
               h1 \<leftarrow> start_and_checkpoint_timer h p now;
               set_expire_interval h1 p d
             }))"

definition stimer_expire_from_now_s :: "heap \<Rightarrow> timer_ptr option \<Rightarrow> u32 \<Rightarrow> u32 \<Rightarrow> heap option" where
  "stimer_expire_from_now_s h tsp s now =
     (case tsp of
        None \<Rightarrow> Some h
      | Some p \<Rightarrow> do {
          h1 \<leftarrow> start_and_checkpoint_timer h p now;
          ts \<leftarrow> timers h1 p;
          Some (put_timer h1 p
                  (ts\<lparr>expire_interval := (expire_interval ts)\<lparr>seconds := s, nanoseconds := 0\<rparr>\<rparr>))
        })"

definition stimer_expire_from_now_ms :: "heap \<Rightarrow> timer_ptr option \<Rightarrow> u32 \<Rightarrow> u32 \<Rightarrow> heap option" where
  "stimer_expire_from_now_ms h tsp ms now =
     (case tsp of
        None \<Rightarrow> Some h
      | Some p \<Rightarrow> do {
          h1 \<leftarrow> start_and_checkpoint_timer h p now;
          ts \<leftarrow> timers h1 p;
          Some (put_timer h1 p
                  (ts\<lparr>expire_interval := (expire_interval ts)
                        \<lparr>seconds := ms div 1000, nanoseconds := (ms mod 1000) * 1000000\<rparr>\<rparr>))
        })"

definition stimer_expire_from_now_us :: "heap \<Rightarrow> timer_ptr option \<Rightarrow> u32 \<Rightarrow> u32 \<Rightarrow> heap option" where
  "stimer_expire_from_now_us h tsp us now =
     (case tsp of
        None \<Rightarrow> Some h
      | Some p \<Rightarrow> do {
          h1 \<leftarrow> start_and_checkpoint_timer h p now;
          ts \<leftarrow> timers h1 p;
          Some (put_timer h1 p
                  (ts\<lparr>expire_interval := (expire_interval ts)
                        \<lparr>seconds := us div 1000000, nanoseconds := (us mod 1000000) * 1000\<rparr>\<rparr>))
        })"

definition stimer_expire_from_now_ns :: "heap \<Rightarrow> timer_ptr option \<Rightarrow> u32 \<Rightarrow> u32 \<Rightarrow> heap option" where
  "stimer_expire_from_now_ns h tsp ns now =
     (case tsp of
        None \<Rightarrow> Some h
      | Some p \<Rightarrow> do {
          h1 \<leftarrow> start_and_checkpoint_timer h p now;
          ts \<leftarrow> timers h1 p;
          Some (put_timer h1 p
                  (ts\<lparr>expire_interval := (expire_interval ts)
                        \<lparr>seconds := ns div 1000000000, nanoseconds := ns mod 1000000000\<rparr>\<rparr>))
        })"

definition stimer_is_expired :: "heap \<Rightarrow> timer_ptr option \<Rightarrow> u32 \<Rightarrow> (heap \<times> bool) option" where
  "stimer_is_expired h tsp now =
     (case tsp of
        None \<Rightarrow> Some (h, False)
      | Some p \<Rightarrow> do {
          h1 \<leftarrow> advance_and_checkpoint_2 h p now;
          ts \<leftarrow> timers h1 p;
          Some (h1, timer_duration_ge (elapsed ts) (expire_interval ts))
        })"

definition stimer_restart_from_now :: "heap \<Rightarrow> timer_ptr option \<Rightarrow> u32 \<Rightarrow> heap option" where
  "stimer_restart_from_now h tsp now =
     (case tsp of
        None \<Rightarrow> Some h
      | Some p \<Rightarrow> do {
          ts \<leftarrow> timers h p;
          if is_running ts then start_and_checkpoint_timer h p now else Some h
        })"

text \<open>The arithmetic of the expired branch of \<open>stimer_advance\<close>, on the two durations.\<close>

definition consume_interval :: "stimer_duration \<Rightarrow> stimer_duration \<Rightarrow> stimer_duration" where
  "consume_interval e ei =
     (let e1 = e\<lparr>seconds := seconds e - seconds ei\<rparr> in
      if nanoseconds ei \<le> nanoseconds e1
      then e1\<lparr>nanoseconds := nanoseconds e1 - nanoseconds ei\<rparr>
      else (let e2 = e1\<lparr>seconds := seconds e1 - 1\<rparr> in
            e2\<lparr>nanoseconds := nanoseconds e2 + (1000000000 - nanoseconds ei)\<rparr>))"

definition stimer_advance :: "heap \<Rightarrow> timer_ptr option \<Rightarrow> u32 \<Rightarrow> heap option" where
  "stimer_advance h tsp now =
     (case tsp of
        None \<Rightarrow> Some h
      | Some p \<Rightarrow> do {
          ts \<leftarrow> timers h p;
          if is_running ts then do {
            h1 \<leftarrow> advance_and_checkpoint_2 h p now;
            ts1 \<leftarrow> timers h1 p;
            if timer_duration_ge (elapsed ts1) (expire_interval ts1)
            then Some (put_timer h1 p
                         (ts1\<lparr>elapsed := consume_interval (elapsed ts1) (expire_interval ts1)\<rparr>))
            else Some (put_timer h1 p
                         (ts1\<lparr>elapsed := (elapsed ts1)\<lparr>seconds := 0, nanoseconds := 0\<rparr>\<rparr>))
          } else Some h
        })"

section \<open>Notions used by the properties\<close>

text \<open>The time a duration represents, in nanoseconds.\<close>

definition duration_ns :: "stimer_duration \<Rightarrow> nat" where
  "duration_ns d = unat (seconds d) * 1000000000 + unat (nanoseconds d)"

text \<open>
  A small store used to evaluate the operations: one context at address 0 whose counter
  wraps at 255 and counts milliseconds, and one running timer at address 4, registered
  with it, that has accumulated 1 ms towards an interval of 3 ms.
\<close>

definition ex_ctx :: stimer_ctx where
  "ex_ctx = \<lparr>root = Some 4, tm = tm_initialize 255, ns_per_count = 1000000\<rparr>"

definition ex_timer :: stimer where
  "ex_timer = \<lparr>ctx = Some 0, nxt = None, checkpoint = 3,
                expire_interval = \<lparr>seconds = 0, nanoseconds = 3000000\<rparr>,
                elapsed = \<lparr>seconds = 0, nanoseconds = 1000000\<rparr>,
                is_running = True\<rparr>"

definition ex_duration :: stimer_duration where
  "ex_duration = \<lparr>seconds = 1, nanoseconds = 1000000\<rparr>"

definition ex_heap :: heap where
  "ex_heap = \<lparr>timers = [4 \<mapsto> ex_timer], ctxs = [0 \<mapsto> ex_ctx]\<rparr>"

text \<open>The store before anything was allocated.\<close>

definition empty_heap :: heap where
  "empty_heap = \<lparr>timers = Map.empty, ctxs = Map.empty\<rparr>"

text \<open>
  The expire interval a call has left in timer \<open>p\<close>, and the absence of a dangling
  context pointer in a timer (a pointer to a context that was freed).
\<close>

definition stored_interval :: "heap option \<Rightarrow> timer_ptr \<Rightarrow> stimer_duration option" where
  "stored_interval r p =
     (case r of None \<Rightarrow> None | Some h \<Rightarrow> map_option expire_interval (timers h p))"

definition no_dangling_ctx :: "heap \<Rightarrow> stimer \<Rightarrow> bool" where
  "no_dangling_ctx h ts = (case ctx ts of None \<Rightarrow> True | Some c \<Rightarrow> ctxs h c \<noteq> None)"

text \<open>
  Timer \<open>p\<close> exists, is stopped, and holds the elapsed duration \<open>e\<close> and the expire
  interval \<open>ei\<close>.
\<close>

definition stopped_with :: "heap \<Rightarrow> timer_ptr \<Rightarrow> stimer_duration \<Rightarrow> stimer_duration \<Rightarrow> bool" where
  "stopped_with h p e ei =
     (case timers h p of
        None \<Rightarrow> False
      | Some ts \<Rightarrow> \<not> is_running ts \<and> elapsed ts = e \<and> expire_interval ts = ei)"

text \<open>
  The calls a client can make, with the sample the time function returns during the call
  and the outcome of \<open>malloc\<close> where there is one; \<open>run\<close> makes a sequence of calls and
  drops their results. A call restarts timer \<open>p\<close> when it is \<open>stimer_start\<close> or an
  expiration setter on \<open>p\<close>; allocating or freeing \<open>p\<close> itself is counted with them.
\<close>

datatype call =
    Alloc_context "ctx_ptr option" u32 u32
  | Free_context "ctx_ptr option"
  | Execute_context "ctx_ptr option" u32
  | Alloc "ctx_ptr option" "timer_ptr option"
  | Free "timer_ptr option"
  | Start "timer_ptr option" u32
  | Stop "timer_ptr option" u32
  | Get_elapsed_time "timer_ptr option" "stimer_duration option" u32
  | Expire_from_now "timer_ptr option" "stimer_duration option" u32
  | Expire_from_now_s "timer_ptr option" u32 u32
  | Expire_from_now_ms "timer_ptr option" u32 u32
  | Expire_from_now_us "timer_ptr option" u32 u32
  | Expire_from_now_ns "timer_ptr option" u32 u32
  | Is_expired "timer_ptr option" u32
  | Restart_from_now "timer_ptr option" u32
  | Advance "timer_ptr option" u32

fun do_call :: "heap \<Rightarrow> call \<Rightarrow> heap option" where
  "do_call h (Alloc_context m max_time nspc) = Some (fst (stimer_alloc_context h m max_time nspc))"
| "do_call h (Free_context c) = stimer_free_context h c"
| "do_call h (Execute_context c now) = stimer_execute_context h c now"
| "do_call h (Alloc c m) = map_option fst (stimer_alloc h c m)"
| "do_call h (Free t) = stimer_free h t"
| "do_call h (Start t now) = stimer_start h t now"
| "do_call h (Stop t now) = stimer_stop h t now"
| "do_call h (Get_elapsed_time t d now) = map_option fst (stimer_get_elapsed_time h t d now)"
| "do_call h (Expire_from_now t d now) = stimer_expire_from_now h t d now"
| "do_call h (Expire_from_now_s t n now) = stimer_expire_from_now_s h t n now"
| "do_call h (Expire_from_now_ms t n now) = stimer_expire_from_now_ms h t n now"
| "do_call h (Expire_from_now_us t n now) = stimer_expire_from_now_us h t n now"
| "do_call h (Expire_from_now_ns t n now) = stimer_expire_from_now_ns h t n now"
| "do_call h (Is_expired t now) = map_option fst (stimer_is_expired h t now)"
| "do_call h (Restart_from_now t now) = stimer_restart_from_now h t now"
| "do_call h (Advance t now) = stimer_advance h t now"

fun run :: "heap \<Rightarrow> call list \<Rightarrow> heap option" where
  "run h [] = Some h"
| "run h (c # cs) = do { h1 \<leftarrow> do_call h c; run h1 cs }"

fun restarts :: "timer_ptr \<Rightarrow> call \<Rightarrow> bool" where
  "restarts p (Start t now) = (t = Some p)"
| "restarts p (Expire_from_now t d now) = (t = Some p)"
| "restarts p (Expire_from_now_s t n now) = (t = Some p)"
| "restarts p (Expire_from_now_ms t n now) = (t = Some p)"
| "restarts p (Expire_from_now_us t n now) = (t = Some p)"
| "restarts p (Expire_from_now_ns t n now) = (t = Some p)"
| "restarts p (Alloc c m) = (m = Some p)"
| "restarts p (Free t) = (t = Some p)"
| "restarts p _ = False"

text \<open>
  The example store after \<open>stimer_stop\<close> at sample 5, and some calls that follow.
\<close>

definition ex_stopped :: heap where
  "ex_stopped = put_timer ex_heap 4
     (ex_timer\<lparr>checkpoint := 5, elapsed := \<lparr>seconds = 0, nanoseconds = 3000000\<rparr>,
               is_running := False\<rparr>)"

definition ex_calls :: "call list" where
  "ex_calls = [Execute_context (Some 0) 9, Is_expired (Some 4) 12, Advance (Some 4) 13,
               Restart_from_now (Some 4) 14, Get_elapsed_time (Some 4) (Some ex_duration) 20]"

text \<open>The example store after its context has been freed: the timer is detached.\<close>

definition ex_detached :: heap where
  "ex_detached = \<lparr>timers = [4 \<mapsto> ex_timer\<lparr>ctx := None, nxt := None\<rparr>], ctxs = Map.empty\<rparr>"

text \<open>
  Polling: \<open>stimer_is_expired\<close> called on timer \<open>p\<close> once for each sample of the list,
  with the results in order.
\<close>

fun poll :: "heap \<Rightarrow> timer_ptr \<Rightarrow> u32 list \<Rightarrow> (heap \<times> bool list) option" where
  "poll h p [] = Some (h, [])"
| "poll h p (now # nows) = do {
     (h1, b) \<leftarrow> stimer_is_expired h (Some p) now;
     (h2, bs) \<leftarrow> poll h1 p nows;
     Some (h2, b # bs)
   }"

text \<open>
  The counter math of the context of timer \<open>p\<close> reports no forward progress between two
  identical samples (the contract of \<open>tm_get_diff\<close>).
\<close>

definition no_progress_at :: "heap \<Rightarrow> timer_ptr \<Rightarrow> u32 \<Rightarrow> bool" where
  "no_progress_at h p now =
     (case timers h p of
        None \<Rightarrow> True
      | Some ts \<Rightarrow>
          (case ctx ts of
             None \<Rightarrow> True
           | Some c \<Rightarrow>
               (case ctxs h c of
                  None \<Rightarrow> True
                | Some cx \<Rightarrow> \<not> 0 <s tm cx now now)))"

text \<open>
  The elapsed duration of timer \<open>p\<close> is canonical and its seconds field is below its
  maximum.
\<close>

definition calm :: "heap \<Rightarrow> timer_ptr \<Rightarrow> bool" where
  "calm h p =
     (case timers h p of
        None \<Rightarrow> False
      | Some ts \<Rightarrow> nanoseconds (elapsed ts) < 1000000000 \<and> seconds (elapsed ts) < 4294967295)"

text \<open>
  A call resets timer \<open>p\<close> when it restarts it, or is \<open>stimer_restart_from_now\<close> or
  \<open>stimer_advance\<close> on \<open>p\<close>. A sequence of calls is steady for \<open>p\<close> when the timer
  is calm before each of its calls and after the last one.
\<close>

fun resets :: "timer_ptr \<Rightarrow> call \<Rightarrow> bool" where
  "resets p (Restart_from_now t now) = (t = Some p)"
| "resets p (Advance t now) = (t = Some p)"
| "resets p c = restarts p c"

fun steady :: "heap \<Rightarrow> timer_ptr \<Rightarrow> call list \<Rightarrow> bool" where
  "steady h p [] = calm h p"
| "steady h p (c # cs) =
     (calm h p \<and> (case do_call h c of None \<Rightarrow> True | Some h1 \<Rightarrow> steady h1 p cs))"

text \<open>Timer \<open>p\<close> exists and its elapsed duration has reached its expire interval.\<close>

definition expired_in :: "heap \<Rightarrow> timer_ptr \<Rightarrow> bool" where
  "expired_in h p =
     (case timers h p of
        None \<Rightarrow> False
      | Some ts \<Rightarrow> timer_duration_ge (elapsed ts) (expire_interval ts))"

text \<open>
  Used in the proofs only. The clock of a timer is its elapsed duration and its expire
  interval; between two stores it has stepped when it is unchanged or the elapsed
  duration was advanced once. A chain is the list of timers reached from a pointer
  through \<open>next\<close> up to \<open>NULL\<close>, and \<open>sweep\<close> is the advance-and-checkpoint of the
  timers of a list, in order.
\<close>

definition clock :: "heap \<Rightarrow> timer_ptr \<Rightarrow> (stimer_duration \<times> stimer_duration) option" where
  "clock h p = map_option (\<lambda>ts. (elapsed ts, expire_interval ts)) (timers h p)"

definition stepped :: "heap \<Rightarrow> heap \<Rightarrow> timer_ptr \<Rightarrow> bool" where
  "stepped h h1 p =
     (clock h1 p = clock h p \<or>
      (\<exists>e ei n. clock h p = Some (e, ei) \<and> clock h1 p = Some (advance_timer_duration e n, ei)))"

fun chain :: "heap \<Rightarrow> timer_ptr option \<Rightarrow> timer_ptr list \<Rightarrow> bool" where
  "chain h x [] = (x = None)"
| "chain h x (q # ps) =
     (x = Some q \<and> (case timers h q of None \<Rightarrow> False | Some ts \<Rightarrow> chain h (nxt ts) ps))"

fun sweep :: "timer_ptr list \<Rightarrow> heap \<Rightarrow> tm_math \<Rightarrow> u32 \<Rightarrow> heap option" where
  "sweep [] h tmm now = Some h"
| "sweep (q # ps) h tmm now = do {
     h1 \<leftarrow> advance_and_checkpoint h q tmm now;
     sweep ps h1 tmm now
   }"

text \<open>
  Calls that follow the poll of the example store at sample 6, and the store they leave.
\<close>

definition ex_visits :: "call list" where
  "ex_visits = [Execute_context (Some 0) 7, Get_elapsed_time (Some 4) (Some ex_duration) 8,
                Is_expired (Some 4) 9]"

definition ex_later :: heap where
  "ex_later = put_timer ex_heap 4
     (ex_timer\<lparr>checkpoint := 9, elapsed := \<lparr>seconds = 0, nanoseconds = 7000000\<rparr>\<rparr>)"

text \<open>
  A store whose timer was given the interval of 0 s and 2000000000 ns, a duration that is
  not canonical, and has run for 3 s on a 32-bit counter of 1 ms per tick.
\<close>

definition ex_wide :: heap where
  "ex_wide = \<lparr>timers = [4 \<mapsto> \<lparr>ctx = Some 0, nxt = None, checkpoint = 3000,
                                expire_interval = \<lparr>seconds = 0, nanoseconds = 2000000000\<rparr>,
                                elapsed = \<lparr>seconds = 3, nanoseconds = 0\<rparr>,
                                is_running = True\<rparr>],
               ctxs = [0 \<mapsto> \<lparr>root = Some 4, tm = tm_initialize 4294967295,
                               ns_per_count = 1000000\<rparr>]\<rparr>"

text \<open>
  More example stores: a timer with an interval of 1 s and 500 ns on a 32-bit counter of
  2 ns per tick; the example store after a poll at sample 6; the example store after a
  second timer was allocated at address 7, and after a sweep at sample 9.
\<close>

definition ex_fast :: heap where
  "ex_fast = \<lparr>timers = [4 \<mapsto> \<lparr>ctx = Some 0, nxt = None, checkpoint = 0,
                                expire_interval = \<lparr>seconds = 1, nanoseconds = 500\<rparr>,
                                elapsed = \<lparr>seconds = 0, nanoseconds = 0\<rparr>,
                                is_running = True\<rparr>],
               ctxs = [0 \<mapsto> \<lparr>root = Some 4, tm = tm_initialize 4294967295,
                               ns_per_count = 2\<rparr>]\<rparr>"

definition ex_polled :: heap where
  "ex_polled = put_timer ex_heap 4
     (ex_timer\<lparr>checkpoint := 6, elapsed := \<lparr>seconds = 0, nanoseconds = 4000000\<rparr>\<rparr>)"

definition ex_alloc :: heap where
  "ex_alloc = put_ctx
     (put_timer ex_heap 7
        \<lparr>ctx = Some 0, nxt = Some 4, checkpoint = 0,
         expire_interval = \<lparr>seconds = 0, nanoseconds = 0\<rparr>,
         elapsed = \<lparr>seconds = 0, nanoseconds = 0\<rparr>, is_running = False\<rparr>)
     0 (ex_ctx\<lparr>root := Some 7\<rparr>)"

definition ex_swept :: heap where
  "ex_swept = put_timer ex_alloc 4
     (ex_timer\<lparr>checkpoint := 9, elapsed := \<lparr>seconds = 0, nanoseconds = 7000000\<rparr>\<rparr>)"

section \<open>Basic facts about the store\<close>

lemma timers_put_timer [simp]: "timers (put_timer h p ts) = (timers h)(p \<mapsto> ts)"
  by (simp add: put_timer_def)

lemma ctxs_put_timer [simp]: "ctxs (put_timer h p ts) = ctxs h"
  by (simp add: put_timer_def)

lemma timers_put_ctx [simp]: "timers (put_ctx h c cx) = timers h"
  by (simp add: put_ctx_def)

lemma ctxs_put_ctx [simp]: "ctxs (put_ctx h c cx) = (ctxs h)(c \<mapsto> cx)"
  by (simp add: put_ctx_def)

lemma put_timer_twice [simp]: "put_timer (put_timer h p a) p b = put_timer h p b"
  by (simp add: put_timer_def)

lemma put_timer_same: "timers h p = Some ts \<Longrightarrow> put_timer h p ts = h"
  by (simp add: put_timer_def map_upd_triv)

lemma duration_assigned [simp]:
  "(d::stimer_duration)\<lparr>seconds := a, nanoseconds := b\<rparr> = \<lparr>seconds = a, nanoseconds = b\<rparr>"
  by (cases d) simp

lemma ex_heap_timer: "timers ex_heap 4 = Some ex_timer"
  by (simp add: ex_heap_def)

lemma ex_heap_ctx: "ctxs ex_heap 0 = Some ex_ctx"
  by (simp add: ex_heap_def)

lemma ex_timer_ctx: "ctx ex_timer = Some 0"
  by (simp add: ex_timer_def)

lemma start_and_checkpoint_attached:
  assumes "timers h p = Some ts" and "ctx ts = Some c" and "ctxs h c = Some cx"
  shows "start_and_checkpoint_timer h p now =
         Some (put_timer h p (ts\<lparr>checkpoint := now, is_running := True,
                                 elapsed := \<lparr>seconds = 0, nanoseconds = 0\<rparr>\<rparr>))"
  using assms by (simp add: start_and_checkpoint_timer_def)

lemma start_and_checkpoint_detached:
  assumes "timers h p = Some ts" and "ctx ts = None"
  shows "start_and_checkpoint_timer h p now = Some h"
  using assms by (simp add: start_and_checkpoint_timer_def)

text \<open>The example stores are what the library builds from the empty store.\<close>

lemma ex_heap_reachable:
  "run empty_heap [Alloc_context (Some 0) 255 1000000, Alloc (Some 0) (Some 4),
                   Expire_from_now_ms (Some 4) 3 2, Is_expired (Some 4) 3] = Some ex_heap"
  by (simp add: empty_heap_def stimer_alloc_context_def stimer_alloc_def link_timer_def
      stimer_expire_from_now_ms_def start_and_checkpoint_timer_def stimer_is_expired_def
      advance_and_checkpoint_2_def advance_and_checkpoint_def advance_timer_duration_def
      tm_initialize_def word_sless_alt ex_heap_def ex_ctx_def ex_timer_def put_timer_def
      put_ctx_def Let_def)

lemma ex_fast_reachable:
  "run empty_heap [Alloc_context (Some 0) 4294967295 2, Alloc (Some 0) (Some 4),
                   Expire_from_now (Some 4) (Some \<lparr>seconds = 1, nanoseconds = 500\<rparr>) 0]
   = Some ex_fast"
  by (simp add: empty_heap_def stimer_alloc_context_def stimer_alloc_def link_timer_def
      stimer_expire_from_now_def set_expire_interval_def start_and_checkpoint_timer_def
      ex_fast_def put_timer_def put_ctx_def Let_def)

lemma ex_wide_reachable:
  "run empty_heap [Alloc_context (Some 0) 4294967295 1000000, Alloc (Some 0) (Some 4),
                   Expire_from_now (Some 4) (Some \<lparr>seconds = 0, nanoseconds = 2000000000\<rparr>) 0,
                   Execute_context (Some 0) 1000, Execute_context (Some 0) 2000,
                   Execute_context (Some 0) 3000]
   = Some ex_wide"
  by (simp add: empty_heap_def stimer_alloc_context_def stimer_alloc_def link_timer_def
      stimer_expire_from_now_def set_expire_interval_def start_and_checkpoint_timer_def
      stimer_execute_context_def execute_loop.simps advance_and_checkpoint_def
      advance_timer_duration_def tm_initialize_def word_sless_alt
      ex_wide_def put_timer_def put_ctx_def Let_def)

section \<open>Absent references\<close>

text \<open>
  C9. Every public operation that takes a context or a timer returns normally when that
  reference is \<open>NULL\<close>, and leaves the whole store as it was. \<open>stimer_alloc\<close> returns
  \<open>NULL\<close>, \<open>stimer_is_expired\<close> returns \<open>false\<close>, and \<open>stimer_get_elapsed_time\<close>
  leaves the caller's duration untouched.
\<close>

theorem null_reference_is_noop:
  "stimer_free_context h None = Some h \<and>
   stimer_execute_context h None now = Some h \<and>
   stimer_alloc h None m = Some (h, None) \<and>
   stimer_free h None = Some h \<and>
   stimer_start h None now = Some h \<and>
   stimer_stop h None now = Some h \<and>
   stimer_get_elapsed_time h None t now = Some (h, t) \<and>
   stimer_expire_from_now h None t now = Some h \<and>
   stimer_expire_from_now_s h None n now = Some h \<and>
   stimer_expire_from_now_ms h None n now = Some h \<and>
   stimer_expire_from_now_us h None n now = Some h \<and>
   stimer_expire_from_now_ns h None n now = Some h \<and>
   stimer_is_expired h None now = Some (h, False) \<and>
   stimer_restart_from_now h None now = Some h \<and>
   stimer_advance h None now = Some h"
  by (simp add: stimer_free_context_def stimer_execute_context_def stimer_alloc_def
      stimer_free_def stimer_start_def stimer_stop_def stimer_get_elapsed_time_def
      stimer_expire_from_now_def stimer_expire_from_now_s_def stimer_expire_from_now_ms_def
      stimer_expire_from_now_us_def stimer_expire_from_now_ns_def stimer_is_expired_def
      stimer_restart_from_now_def stimer_advance_def)

section \<open>Starting a timer\<close>

text \<open>
  C7. On a timer attached to a context that exists, \<open>stimer_start\<close> sets the running flag,
  sets elapsed to zero seconds and zero nanoseconds and sets the checkpoint to the current
  sample, whatever the timer's state was before. Each expiration setter does the same and
  stores the given interval as the expire interval.
\<close>

theorem start_resets_and_checkpoints:
  assumes "timers h p = Some ts" and "ctx ts = Some c" and "ctxs h c = Some cx"
  shows "let ts0 = ts\<lparr>checkpoint := now, is_running := True,
                          elapsed := \<lparr>seconds = 0, nanoseconds = 0\<rparr>\<rparr> in
         stimer_start h (Some p) now = Some (put_timer h p ts0) \<and>
         stimer_expire_from_now h (Some p) (Some d) now =
           Some (put_timer h p (ts0\<lparr>expire_interval := d\<rparr>)) \<and>
         stimer_expire_from_now_s h (Some p) n now =
           Some (put_timer h p (ts0\<lparr>expire_interval := \<lparr>seconds = n, nanoseconds = 0\<rparr>\<rparr>)) \<and>
         stimer_expire_from_now_ms h (Some p) n now =
           Some (put_timer h p (ts0\<lparr>expire_interval :=
                   \<lparr>seconds = n div 1000, nanoseconds = (n mod 1000) * 1000000\<rparr>\<rparr>)) \<and>
         stimer_expire_from_now_us h (Some p) n now =
           Some (put_timer h p (ts0\<lparr>expire_interval :=
                   \<lparr>seconds = n div 1000000, nanoseconds = (n mod 1000000) * 1000\<rparr>\<rparr>)) \<and>
         stimer_expire_from_now_ns h (Some p) n now =
           Some (put_timer h p (ts0\<lparr>expire_interval :=
                   \<lparr>seconds = n div 1000000000, nanoseconds = n mod 1000000000\<rparr>\<rparr>))"
  using assms
  by (simp add: Let_def stimer_start_def stimer_expire_from_now_def stimer_expire_from_now_s_def
      stimer_expire_from_now_ms_def stimer_expire_from_now_us_def stimer_expire_from_now_ns_def
      start_and_checkpoint_attached [OF assms] set_expire_interval_def)

theorem start_resets_and_checkpoints_witness:
  "timers ex_heap 4 = Some ex_timer \<and> ctx ex_timer = Some 0 \<and> ctxs ex_heap 0 = Some ex_ctx \<and>
   stimer_start ex_heap (Some 4) 9 =
     Some (put_timer ex_heap 4
             (ex_timer\<lparr>checkpoint := 9, is_running := True,
                       elapsed := \<lparr>seconds = 0, nanoseconds = 0\<rparr>\<rparr>)) \<and>
   stimer_expire_from_now_ms ex_heap (Some 4) 2500 9 =
     Some (put_timer ex_heap 4
             (ex_timer\<lparr>checkpoint := 9, is_running := True,
                       elapsed := \<lparr>seconds = 0, nanoseconds = 0\<rparr>,
                       expire_interval := \<lparr>seconds = 2, nanoseconds = 500000000\<rparr>\<rparr>))"
  using start_resets_and_checkpoints [OF ex_heap_timer ex_timer_ctx ex_heap_ctx, of 9 ex_duration 2500]
  by (simp add: Let_def ex_heap_timer ex_timer_ctx ex_heap_ctx)

section \<open>Duration arithmetic\<close>

lemma advance_timer_duration_ns:
  assumes "nanoseconds td < 1000000000" and "ns \<le> 1000000000"
  shows "nanoseconds (advance_timer_duration td ns) < 1000000000"
  using assms
  apply (simp add: advance_timer_duration_def Let_def)
  apply unat_arith
  done

lemma unat_u32_bound: "unat (w :: u32) < 4294967296"
  using unsigned_less [of w, where 'a = nat] by simp

lemma unat_succ_seconds: "unat (s + 1 :: u32) = (if unat s = 4294967295 then 0 else unat s + 1)"
proof -
  have "unat (s + 1) = (unat s + 1) mod 4294967296"
    by (simp add: unat_word_ariths)
  then show ?thesis using unat_u32_bound [of s] by auto
qed

lemma advance_timer_duration_total:
  assumes "nanoseconds td < 1000000000" and "ns \<le> 1000000000"
  shows "duration_ns (advance_timer_duration td ns) =
         (duration_ns td + unat ns) mod (4294967296 * 1000000000)"
proof -
  let ?a = "unat (nanoseconds td)" and ?b = "unat ns" and ?s = "unat (seconds td)"
  have a: "?a < 1000000000" using assms(1) by unat_arith
  have b: "?b \<le> 1000000000" using assms(2) by unat_arith
  have s: "?s < 4294967296" by (rule unat_u32_bound)
  have hr: "unat (1000000000 - nanoseconds td) = 1000000000 - ?a"
    using assms(1) by unat_arith
  show ?thesis
  proof (cases "ns < 1000000000 - nanoseconds td")
    case True
    then have lt: "?b < 1000000000 - ?a" using hr by (simp add: word_less_nat_alt)
    have "unat (nanoseconds td + ns) = ?a + ?b"
      using lt a by (simp add: unat_add_lem [THEN iffD1])
    with True lt s show ?thesis
      by (simp add: advance_timer_duration_def Let_def duration_ns_def)
  next
    case False
    then have ge: "1000000000 - ?a \<le> ?b" using hr by (simp add: word_less_nat_alt)
    have le: "1000000000 - nanoseconds td \<le> ns" using False by simp
    have n: "unat (ns - (1000000000 - nanoseconds td)) = ?b - (1000000000 - ?a)"
      using le hr by (simp add: unat_sub)
    show ?thesis
    proof (cases "?s = 4294967295")
      case True
      have "(4294967295 * 1000000000 + ?a + ?b) mod (4294967296 * 1000000000)
            = (?a + ?b - 1000000000 + 1 * (4294967296 * 1000000000)) mod (4294967296 * 1000000000)"
        using ge a by (intro arg_cong [where f = "\<lambda>x. x mod _"]) simp
      also have "\<dots> = (?a + ?b - 1000000000) mod (4294967296 * 1000000000)"
        by (simp only: mod_mult_self1)
      also have "\<dots> = ?a + ?b - 1000000000" using a b by simp
      finally show ?thesis using False True n ge a
        by (simp add: advance_timer_duration_def Let_def duration_ns_def unat_succ_seconds)
    next
      case F2: False
      with s have "?s + 1 < 4294967296" by simp
      then show ?thesis using False F2 n ge a b
        by (simp add: advance_timer_duration_def Let_def duration_ns_def unat_succ_seconds)
    qed
  qed
qed


lemma advance_fold_invariant:
  assumes "nanoseconds d < 1000000000" and "\<forall>x\<in>set xs. x \<le> 1000000000"
  shows "nanoseconds (foldl advance_timer_duration d xs) < 1000000000 \<and>
         duration_ns (foldl advance_timer_duration d xs) =
           (duration_ns d + sum_list (map unat xs)) mod (4294967296 * 1000000000)"
  using assms
proof (induction xs arbitrary: d)
  case Nil
  have "duration_ns d < 4294967296 * 1000000000"
    using unat_u32_bound [of "seconds d"] unat_u32_bound [of "nanoseconds d"] Nil.prems(1)
    by (simp add: duration_ns_def word_less_nat_alt)
  with Nil show ?case by simp
next
  case (Cons x xs)
  let ?d = "advance_timer_duration d x"
  have x: "x \<le> 1000000000" using Cons.prems(2) by simp
  have n: "nanoseconds ?d < 1000000000"
    using advance_timer_duration_ns [OF Cons.prems(1) x] .
  have t: "duration_ns ?d = (duration_ns d + unat x) mod (4294967296 * 1000000000)"
    using advance_timer_duration_total [OF Cons.prems(1) x] .
  have ih: "nanoseconds (foldl advance_timer_duration ?d xs) < 1000000000 \<and>
        duration_ns (foldl advance_timer_duration ?d xs) =
          (duration_ns ?d + sum_list (map unat xs)) mod (4294967296 * 1000000000)"
    using Cons.IH [OF n] Cons.prems(2) by simp
  have "(duration_ns ?d + sum_list (map unat xs)) mod (4294967296 * 1000000000) =
        (duration_ns d + unat x + sum_list (map unat xs)) mod (4294967296 * 1000000000)"
    unfolding t by (rule mod_add_left_eq)
  with ih show ?case by (simp add: add.assoc)
qed

text \<open>
  C3, as amended. Starting from a duration whose nanoseconds are below 1000000000, and for
  every sequence of calls of \<open>advance_timer_duration\<close> whose increments are each at most
  1000000000 ns (one second), after each call the nanoseconds are below 1000000000 and
  the represented time is the sum of the start value and the increments applied, modulo
  \<open>2^32\<close> seconds.
\<close>

theorem advance_sequence_invariant:
  assumes "nanoseconds d < 1000000000" and "\<forall>x\<in>set xs. x \<le> 1000000000"
    and "n \<le> length xs"
  shows "nanoseconds (foldl advance_timer_duration d (take n xs)) < 1000000000 \<and>
         duration_ns (foldl advance_timer_duration d (take n xs)) =
           (duration_ns d + sum_list (map unat (take n xs))) mod (2 ^ 32 * 1000000000)"
proof -
  have "\<forall>x\<in>set (take n xs). x \<le> 1000000000"
    using assms(2) by (meson in_set_takeD)
  from advance_fold_invariant [OF assms(1) this] show ?thesis by simp
qed

theorem advance_sequence_invariant_witness:
  "nanoseconds ex_duration < 1000000000 \<and>
   list_all (\<lambda>x. x \<le> 1000000000) [999000000, 1000000000 :: u32] \<and>
   (2::nat) \<le> length [999000000, 1000000000 :: u32] \<and>
   foldl advance_timer_duration ex_duration [999000000, 1000000000] =
     \<lparr>seconds = 3, nanoseconds = 0\<rparr> \<and>
   duration_ns \<lparr>seconds = 3, nanoseconds = 0\<rparr> =
     (duration_ns ex_duration + 1999000000) mod (2 ^ 32 * 1000000000)"
proof -
  have a: "nanoseconds ex_duration < 1000000000" by (simp add: ex_duration_def)
  have b: "\<forall>x\<in>set [999000000, 1000000000 :: u32]. x \<le> 1000000000" by simp
  have c: "(2::nat) \<le> length [999000000, 1000000000 :: u32]" by simp
  have e: "foldl advance_timer_duration ex_duration [999000000, 1000000000] =
     \<lparr>seconds = 3, nanoseconds = 0\<rparr>"
    by (simp add: ex_duration_def advance_timer_duration_def)
  from advance_sequence_invariant [OF a b c] a b c e show ?thesis
    by (simp add: list_all_iff)
qed

text \<open>
  With increments of more than one second the invariant fails: an advance of 2 s from zero
  leaves 1000000000 in the nanoseconds field, and a further large advance from such a
  duration loses time.
\<close>

theorem advance_sequence_invariant_counterexample:
  "\<not> nanoseconds (advance_timer_duration \<lparr>seconds = 0, nanoseconds = 0\<rparr> 2000000000)
       < 1000000000 \<and>
   duration_ns (foldl advance_timer_duration \<lparr>seconds = 0, nanoseconds = 0\<rparr>
                  [2000000001, 4294967295]) \<noteq>
     (duration_ns \<lparr>seconds = 0, nanoseconds = 0\<rparr> + (2000000001 + 4294967295))
       mod (2 ^ 32 * 1000000000)"
  by (simp add: advance_timer_duration_def duration_ns_def)

section \<open>Expiration setters\<close>

lemma div_mod_scale:
  fixes a :: nat
  shows "a div k * (k * m) + a mod k * m = a * m"
proof -
  have "(a div k * k + a mod k) * m = a * m" by simp
  then show ?thesis by (simp only: add_mult_distrib mult.assoc)
qed

lemma ms_interval:
  "nanoseconds \<lparr>seconds = n div 1000, nanoseconds = (n mod 1000) * 1000000\<rparr> < (1000000000::u32) \<and>
   duration_ns \<lparr>seconds = n div 1000, nanoseconds = (n mod 1000) * 1000000\<rparr> = unat n * 1000000"
proof -
  have m: "unat (n mod 1000) < 1000" by (simp add: unat_mod)
  then have "unat (n mod 1000) * unat (1000000 :: u32) < 2 ^ LENGTH(32)" by simp
  then have u: "unat ((n mod 1000) * 1000000) = unat (n mod 1000) * 1000000"
    by (simp add: unat_mult_lem [THEN iffD1])
  have "unat ((n mod 1000) * 1000000) < unat (1000000000 :: u32)" using m u by simp
  then have 1: "(n mod 1000) * 1000000 < 1000000000" by (simp only: word_less_nat_alt)
  have "unat n div 1000 * 1000000000 + unat n mod 1000 * 1000000 = unat n * 1000000"
    using div_mod_scale [of "unat n" 1000 1000000] by simp
  then show ?thesis using 1 u by (simp add: duration_ns_def unat_div unat_mod)
qed


lemma start_and_checkpoint_returns:
  assumes "timers h p = Some ts" and "no_dangling_ctx h ts"
  shows "\<exists>h1 ts1. start_and_checkpoint_timer h p now = Some h1 \<and> timers h1 p = Some ts1"
  using assms
  by (auto simp: start_and_checkpoint_timer_def no_dangling_ctx_def split: option.splits)

lemma us_interval:
  "nanoseconds \<lparr>seconds = n div 1000000, nanoseconds = (n mod 1000000) * 1000\<rparr> < (1000000000::u32) \<and>
   duration_ns \<lparr>seconds = n div 1000000, nanoseconds = (n mod 1000000) * 1000\<rparr> = unat n * 1000"
proof -
  have m: "unat (n mod 1000000) < 1000000" by (simp add: unat_mod)
  then have "unat (n mod 1000000) * unat (1000 :: u32) < 2 ^ LENGTH(32)" by simp
  then have u: "unat ((n mod 1000000) * 1000) = unat (n mod 1000000) * 1000"
    by (simp add: unat_mult_lem [THEN iffD1])
  have "unat ((n mod 1000000) * 1000) < unat (1000000000 :: u32)" using m u by simp
  then have 1: "(n mod 1000000) * 1000 < 1000000000" by (simp only: word_less_nat_alt)
  have "unat n div 1000000 * 1000000000 + unat n mod 1000000 * 1000 = unat n * 1000"
    using div_mod_scale [of "unat n" 1000000 1000] by simp
  then show ?thesis using 1 u by (simp add: duration_ns_def unat_div unat_mod)
qed

lemma ns_interval:
  "nanoseconds \<lparr>seconds = n div 1000000000, nanoseconds = n mod 1000000000\<rparr> < (1000000000::u32) \<and>
   duration_ns \<lparr>seconds = n div 1000000000, nanoseconds = n mod 1000000000\<rparr> = unat n"
proof -
  have "unat (n mod 1000000000) < unat (1000000000 :: u32)" by (simp add: unat_mod)
  then have 1: "n mod 1000000000 < 1000000000" by (simp only: word_less_nat_alt)
  then show ?thesis by (simp add: duration_ns_def unat_div unat_mod)
qed

lemma s_interval:
  "nanoseconds \<lparr>seconds = n, nanoseconds = 0\<rparr> < (1000000000::u32) \<and>
   duration_ns \<lparr>seconds = n, nanoseconds = 0\<rparr> = unat n * 1000000000"
  by (simp add: duration_ns_def)

text \<open>
  C8. On a timer without a dangling context pointer, every expiration setter returns and
  leaves an expire interval whose nanoseconds are below 1000000000 and which represents
  exactly the requested time: \<open>n\<close> seconds, milliseconds, microseconds or nanoseconds
  for the unit forms (with the seconds and nanoseconds the source computes), and the given
  duration itself for \<open>stimer_expire_from_now\<close> when that duration is canonical.
\<close>

theorem expire_setters_normalize:
  assumes "timers h p = Some ts" and "no_dangling_ctx h ts"
  shows
    "(\<exists>e. stored_interval (stimer_expire_from_now_s h (Some p) n now) p = Some e \<and>
          e = \<lparr>seconds = n, nanoseconds = 0\<rparr> \<and>
          nanoseconds e < 1000000000 \<and> duration_ns e = unat n * 1000000000) \<and>
     (\<exists>e. stored_interval (stimer_expire_from_now_ms h (Some p) n now) p = Some e \<and>
          e = \<lparr>seconds = n div 1000, nanoseconds = (n mod 1000) * 1000000\<rparr> \<and>
          nanoseconds e < 1000000000 \<and> duration_ns e = unat n * 1000000) \<and>
     (\<exists>e. stored_interval (stimer_expire_from_now_us h (Some p) n now) p = Some e \<and>
          e = \<lparr>seconds = n div 1000000, nanoseconds = (n mod 1000000) * 1000\<rparr> \<and>
          nanoseconds e < 1000000000 \<and> duration_ns e = unat n * 1000) \<and>
     (\<exists>e. stored_interval (stimer_expire_from_now_ns h (Some p) n now) p = Some e \<and>
          e = \<lparr>seconds = n div 1000000000, nanoseconds = n mod 1000000000\<rparr> \<and>
          nanoseconds e < 1000000000 \<and> duration_ns e = unat n) \<and>
     (nanoseconds d < 1000000000 \<longrightarrow>
        (\<exists>e. stored_interval (stimer_expire_from_now h (Some p) (Some d) now) p = Some e \<and>
             e = d \<and> nanoseconds e < 1000000000))"
proof -
  obtain h1 ts1 where s: "start_and_checkpoint_timer h p now = Some h1"
    and t: "timers h1 p = Some ts1"
    using start_and_checkpoint_returns [OF assms] by blast
  have 1: "stored_interval (stimer_expire_from_now_s h (Some p) n now) p =
           Some \<lparr>seconds = n, nanoseconds = 0\<rparr>"
    by (simp add: stimer_expire_from_now_s_def stored_interval_def s t)
  have 2: "stored_interval (stimer_expire_from_now_ms h (Some p) n now) p =
           Some \<lparr>seconds = n div 1000, nanoseconds = (n mod 1000) * 1000000\<rparr>"
    by (simp add: stimer_expire_from_now_ms_def stored_interval_def s t)
  have 3: "stored_interval (stimer_expire_from_now_us h (Some p) n now) p =
           Some \<lparr>seconds = n div 1000000, nanoseconds = (n mod 1000000) * 1000\<rparr>"
    by (simp add: stimer_expire_from_now_us_def stored_interval_def s t)
  have 4: "stored_interval (stimer_expire_from_now_ns h (Some p) n now) p =
           Some \<lparr>seconds = n div 1000000000, nanoseconds = n mod 1000000000\<rparr>"
    by (simp add: stimer_expire_from_now_ns_def stored_interval_def s t)
  have 5: "stored_interval (stimer_expire_from_now h (Some p) (Some d) now) p = Some d"
    by (simp add: stimer_expire_from_now_def set_expire_interval_def stored_interval_def s t)
  show ?thesis
    unfolding 1 2 3 4 5
    using s_interval [of n] ms_interval [of n] us_interval [of n] ns_interval [of n]
    by simp
qed

theorem expire_setters_normalize_witness:
  "timers ex_heap 4 = Some ex_timer \<and> no_dangling_ctx ex_heap ex_timer \<and>
   stored_interval (stimer_expire_from_now_ms ex_heap (Some 4) 2500 9) 4 =
     Some \<lparr>seconds = 2, nanoseconds = 500000000\<rparr> \<and>
   duration_ns \<lparr>seconds = 2, nanoseconds = 500000000\<rparr> = 2500 * 1000000 \<and>
   nanoseconds ex_duration < 1000000000 \<and>
   stored_interval (stimer_expire_from_now ex_heap (Some 4) (Some ex_duration) 9) 4 =
     Some ex_duration"
proof -
  have a: "no_dangling_ctx ex_heap ex_timer"
    by (simp add: no_dangling_ctx_def ex_timer_def ex_heap_def)
  have b: "nanoseconds ex_duration < 1000000000" by (simp add: ex_duration_def)
  from expire_setters_normalize [OF ex_heap_timer a, of 2500 9 ex_duration] a b
  show ?thesis by (simp add: ex_heap_timer)
qed

section \<open>The periodic advance\<close>

lemma consume_interval_fields:
  assumes "timer_duration_ge e ei" and "nanoseconds ei < 1000000000"
  shows "if nanoseconds ei \<le> nanoseconds e
         then unat (seconds ei) \<le> unat (seconds e) \<and>
              unat (nanoseconds ei) \<le> unat (nanoseconds e) \<and>
              unat (seconds (consume_interval e ei)) = unat (seconds e) - unat (seconds ei) \<and>
              unat (nanoseconds (consume_interval e ei)) =
                unat (nanoseconds e) - unat (nanoseconds ei)
         else unat (seconds ei) < unat (seconds e) \<and>
              unat (nanoseconds e) < unat (nanoseconds ei) \<and>
              unat (seconds (consume_interval e ei)) = unat (seconds e) - unat (seconds ei) - 1 \<and>
              unat (nanoseconds (consume_interval e ei)) =
                unat (nanoseconds e) + (1000000000 - unat (nanoseconds ei))"
proof (cases "nanoseconds ei \<le> nanoseconds e")
  case True
  have s: "seconds ei \<le> seconds e"
    using assms(1) by (auto simp: timer_duration_ge_def split: if_splits)
  have "unat (seconds e - seconds ei) = unat (seconds e) - unat (seconds ei)"
    using s by (simp add: unat_sub)
  moreover have "unat (nanoseconds e - nanoseconds ei) = unat (nanoseconds e) - unat (nanoseconds ei)"
    using True by (simp add: unat_sub)
  moreover have "unat (seconds ei) \<le> unat (seconds e)" using s by (simp add: word_le_nat_alt)
  moreover have "unat (nanoseconds ei) \<le> unat (nanoseconds e)" using True by (simp add: word_le_nat_alt)
  ultimately show ?thesis using True by (simp add: consume_interval_def)
next
  case False
  have s: "seconds ei < seconds e"
    using assms(1) False by (auto simp: timer_duration_ge_def split: if_splits)
  then have su: "unat (seconds ei) < unat (seconds e)" by (simp add: word_less_nat_alt)
  have d: "unat (seconds e - seconds ei) = unat (seconds e) - unat (seconds ei)"
    using s by (simp add: unat_sub)
  have "unat (1 :: u32) \<le> unat (seconds e - seconds ei)" using d su by simp
  then have "1 \<le> seconds e - seconds ei" by (simp only: word_le_nat_alt)
  then have 1: "unat (seconds e - seconds ei - 1) = unat (seconds e) - unat (seconds ei) - 1"
    using d by (simp add: unat_sub)
  have nu: "unat (nanoseconds e) < unat (nanoseconds ei)" using False by (simp add: word_le_nat_alt)
  have eu: "unat (nanoseconds ei) < 1000000000" using assms(2) by (simp add: word_less_nat_alt)
  have h: "unat (1000000000 - nanoseconds ei) = 1000000000 - unat (nanoseconds ei)"
    using assms(2) by (simp add: unat_sub)
  have "unat (nanoseconds e) + unat (1000000000 - nanoseconds ei) < 2 ^ LENGTH(32)"
    using h nu eu by simp
  then have 2: "unat (nanoseconds e + (1000000000 - nanoseconds ei)) =
           unat (nanoseconds e) + (1000000000 - unat (nanoseconds ei))"
    using h by (simp add: unat_add_lem [THEN iffD1])
  show ?thesis using False 1 2 su nu by (simp add: consume_interval_def Let_def)
qed

lemma consume_interval_exact:
  assumes "timer_duration_ge e ei" and "nanoseconds ei < 1000000000"
  shows "duration_ns (consume_interval e ei) + duration_ns ei = duration_ns e"
proof (cases "nanoseconds ei \<le> nanoseconds e")
  case True
  with consume_interval_fields [OF assms] show ?thesis
    by (simp add: duration_ns_def add_mult_distrib diff_mult_distrib)
next
  case False
  with consume_interval_fields [OF assms]
  have f: "unat (seconds ei) < unat (seconds e)"
    "unat (nanoseconds e) < unat (nanoseconds ei)"
    "unat (seconds (consume_interval e ei)) = unat (seconds e) - unat (seconds ei) - 1"
    "unat (nanoseconds (consume_interval e ei)) =
       unat (nanoseconds e) + (1000000000 - unat (nanoseconds ei))"
    by simp_all
  have eu: "unat (nanoseconds ei) < 1000000000" using assms(2) by (simp add: word_less_nat_alt)
  obtain k where k: "unat (seconds e) = unat (seconds ei) + 1 + k"
    using f(1) less_iff_Suc_add [of "unat (seconds ei)" "unat (seconds e)"] by auto
  have "duration_ns (consume_interval e ei) =
        k * 1000000000 + (unat (nanoseconds e) + (1000000000 - unat (nanoseconds ei)))"
    using f k by (simp add: duration_ns_def)
  moreover have "duration_ns ei = unat (seconds ei) * 1000000000 + unat (nanoseconds ei)"
    by (simp add: duration_ns_def)
  moreover have "duration_ns e = (unat (seconds ei) + 1 + k) * 1000000000 + unat (nanoseconds e)"
    using k by (simp add: duration_ns_def)
  ultimately show ?thesis using eu by (simp add: add_mult_distrib)
qed

text \<open>
  C2, as amended. For a running timer whose elapsed duration, after the on-demand
  advance-and-checkpoint, is greater than or equal to its expire interval, and whose
  expire interval is canonical (nanoseconds below 1000000000), \<open>stimer_advance\<close>
  replaces elapsed by elapsed minus one expire interval and changes nothing else: the new elapsed plus the interval is
  the old elapsed, the fields are subtracted directly when the elapsed nanoseconds suffice,
  and one second is borrowed into the nanoseconds otherwise.
\<close>

theorem advance_subtracts_one_interval:
  assumes "timers h p = Some ts" and "is_running ts"
    and "advance_and_checkpoint_2 h p now = Some h1" and "timers h1 p = Some ts1"
    and "timer_duration_ge (elapsed ts1) (expire_interval ts1)"
    and "nanoseconds (expire_interval ts1) < 1000000000"
  shows "\<exists>e. stimer_advance h (Some p) now = Some (put_timer h1 p (ts1\<lparr>elapsed := e\<rparr>)) \<and>
             duration_ns e + duration_ns (expire_interval ts1) = duration_ns (elapsed ts1) \<and>
             (if nanoseconds (expire_interval ts1) \<le> nanoseconds (elapsed ts1)
              then unat (seconds e) =
                     unat (seconds (elapsed ts1)) - unat (seconds (expire_interval ts1)) \<and>
                   unat (nanoseconds e) =
                     unat (nanoseconds (elapsed ts1)) - unat (nanoseconds (expire_interval ts1))
              else unat (seconds e) =
                     unat (seconds (elapsed ts1)) - unat (seconds (expire_interval ts1)) - 1 \<and>
                   unat (nanoseconds e) =
                     unat (nanoseconds (elapsed ts1)) +
                       (1000000000 - unat (nanoseconds (expire_interval ts1))))"
proof -
  let ?e = "consume_interval (elapsed ts1) (expire_interval ts1)"
  have "stimer_advance h (Some p) now = Some (put_timer h1 p (ts1\<lparr>elapsed := ?e\<rparr>))"
    using assms(1-5) by (simp add: stimer_advance_def)
  moreover have "duration_ns ?e + duration_ns (expire_interval ts1) = duration_ns (elapsed ts1)"
    using consume_interval_exact [OF assms(5,6)] .
  ultimately show ?thesis
    using consume_interval_fields [OF assms(5,6)]
    by (intro exI [of _ ?e]) (simp split: if_splits)
qed

text \<open>The borrow: 2 s and 100 ns minus 500 ns is 1 s and 999999600 ns.\<close>

lemma consume_interval_borrow:
  "consume_interval \<lparr>seconds = 2, nanoseconds = 100\<rparr> \<lparr>seconds = 0, nanoseconds = 500\<rparr> =
   \<lparr>seconds = 1, nanoseconds = 999999600\<rparr>"
  by (simp add: consume_interval_def)

lemma ex_heap_advance_6:
  "advance_and_checkpoint_2 ex_heap 4 6 =
   Some (put_timer ex_heap 4
           (ex_timer\<lparr>checkpoint := 6, elapsed := \<lparr>seconds = 0, nanoseconds = 4000000\<rparr>\<rparr>))"
  by (simp add: advance_and_checkpoint_2_def advance_and_checkpoint_def ex_heap_def ex_timer_def
      ex_ctx_def tm_initialize_def advance_timer_duration_def word_sless_alt put_timer_def)

theorem advance_subtracts_one_interval_witness:
  "timers ex_heap 4 = Some ex_timer \<and> is_running ex_timer \<and>
   advance_and_checkpoint_2 ex_heap 4 6 =
     Some (put_timer ex_heap 4
             (ex_timer\<lparr>checkpoint := 6, elapsed := \<lparr>seconds = 0, nanoseconds = 4000000\<rparr>\<rparr>)) \<and>
   timer_duration_ge \<lparr>seconds = 0, nanoseconds = 4000000\<rparr> (expire_interval ex_timer) \<and>
   nanoseconds (expire_interval ex_timer) < 1000000000 \<and>
   (\<exists>e. stimer_advance ex_heap (Some 4) 6 =
          Some (put_timer ex_heap 4 (ex_timer\<lparr>checkpoint := 6, elapsed := e\<rparr>)) \<and>
        duration_ns e + 3000000 = 4000000 \<and>
        unat (seconds e) = 0 \<and> unat (nanoseconds e) = 4000000 - 3000000)"
proof -
  let ?ts1 = "ex_timer\<lparr>checkpoint := 6, elapsed := \<lparr>seconds = 0, nanoseconds = 4000000\<rparr>\<rparr>"
  have a: "is_running ex_timer" by (simp add: ex_timer_def)
  have b: "timers (put_timer ex_heap 4 ?ts1) 4 = Some ?ts1" by simp
  have c: "timer_duration_ge (elapsed ?ts1) (expire_interval ?ts1)"
    by (simp add: timer_duration_ge_def ex_timer_def)
  have d: "nanoseconds (expire_interval ?ts1) < 1000000000" by (simp add: ex_timer_def)
  have i: "expire_interval ex_timer = \<lparr>seconds = 0, nanoseconds = 3000000\<rparr>"
    by (simp add: ex_timer_def)
  from advance_subtracts_one_interval [OF ex_heap_timer a ex_heap_advance_6 b c d]
    a c d ex_heap_advance_6
  show ?thesis by (simp add: ex_heap_timer i duration_ns_def)
qed

text \<open>
  With an expire interval that is not canonical the borrow wraps around: from an elapsed
  duration of 3 s and an interval of 0 s and 2000000000 ns, \<open>stimer_advance\<close> leaves
  2 s and 3294967296 ns, which is not elapsed minus the interval.
\<close>

theorem advance_subtracts_one_interval_counterexample:
  "run empty_heap [Alloc_context (Some 0) 4294967295 1000000, Alloc (Some 0) (Some 4),
                   Expire_from_now (Some 4) (Some \<lparr>seconds = 0, nanoseconds = 2000000000\<rparr>) 0,
                   Execute_context (Some 0) 1000, Execute_context (Some 0) 2000,
                   Execute_context (Some 0) 3000]
     = Some ex_wide \<and>
   map_option is_running (timers ex_wide 4) = Some True \<and>
   map_option (\<lambda>h. map_option elapsed (timers h 4)) (advance_and_checkpoint_2 ex_wide 4 3000) =
     Some (Some \<lparr>seconds = 3, nanoseconds = 0\<rparr>) \<and>
   map_option expire_interval (timers ex_wide 4) =
     Some \<lparr>seconds = 0, nanoseconds = 2000000000\<rparr> \<and>
   timer_duration_ge \<lparr>seconds = 3, nanoseconds = 0\<rparr> \<lparr>seconds = 0, nanoseconds = 2000000000\<rparr> \<and>
   map_option (\<lambda>h. map_option elapsed (timers h 4)) (stimer_advance ex_wide (Some 4) 3000) =
     Some (Some \<lparr>seconds = 2, nanoseconds = 3294967296\<rparr>) \<and>
   duration_ns \<lparr>seconds = 2, nanoseconds = 3294967296\<rparr> +
     duration_ns \<lparr>seconds = 0, nanoseconds = 2000000000\<rparr> \<noteq>
     duration_ns \<lparr>seconds = 3, nanoseconds = 0\<rparr>"
  by (rule conjI [OF ex_wide_reachable])
     (simp add: stimer_advance_def advance_and_checkpoint_2_def advance_and_checkpoint_def
       ex_wide_def tm_initialize_def word_sless_alt put_timer_def timer_duration_ge_def
       consume_interval_def duration_ns_def)

text \<open>
  C1, as amended. For a running timer whose elapsed duration, after the on-demand
  advance-and-checkpoint, is strictly less than its expire interval, \<open>stimer_advance\<close>
  performs that advance-and-checkpoint and then sets elapsed to zero seconds and zero
  nanoseconds; everything else is as the advance-and-checkpoint left it.
\<close>

theorem advance_not_expired_resets_elapsed:
  assumes "timers h p = Some ts" and "is_running ts"
    and "advance_and_checkpoint_2 h p now = Some h1" and "timers h1 p = Some ts1"
    and "\<not> timer_duration_ge (elapsed ts1) (expire_interval ts1)"
  shows "stimer_advance h (Some p) now =
         Some (put_timer h1 p (ts1\<lparr>elapsed := \<lparr>seconds = 0, nanoseconds = 0\<rparr>\<rparr>))"
  using assms by (simp add: stimer_advance_def)

lemma ex_heap_advance_4:
  "advance_and_checkpoint_2 ex_heap 4 4 =
   Some (put_timer ex_heap 4
           (ex_timer\<lparr>checkpoint := 4, elapsed := \<lparr>seconds = 0, nanoseconds = 2000000\<rparr>\<rparr>))"
  by (simp add: advance_and_checkpoint_2_def advance_and_checkpoint_def ex_heap_def ex_timer_def
      ex_ctx_def tm_initialize_def advance_timer_duration_def word_sless_alt put_timer_def)

theorem advance_not_expired_resets_elapsed_witness:
  "timers ex_heap 4 = Some ex_timer \<and> is_running ex_timer \<and>
   stimer_advance ex_heap (Some 4) 4 =
     Some (put_timer ex_heap 4
             (ex_timer\<lparr>checkpoint := 4, elapsed := \<lparr>seconds = 0, nanoseconds = 0\<rparr>\<rparr>))"
proof -
  let ?ts1 = "ex_timer\<lparr>checkpoint := 4, elapsed := \<lparr>seconds = 0, nanoseconds = 2000000\<rparr>\<rparr>"
  have a: "is_running ex_timer" by (simp add: ex_timer_def)
  have b: "timers (put_timer ex_heap 4 ?ts1) 4 = Some ?ts1" by simp
  have c: "\<not> timer_duration_ge (elapsed ?ts1) (expire_interval ?ts1)"
    by (simp add: timer_duration_ge_def ex_timer_def)
  from advance_not_expired_resets_elapsed [OF ex_heap_timer a ex_heap_advance_4 b c] a
  show ?thesis by (simp add: ex_heap_timer)
qed

text \<open>
  The not-yet-expired path is not a pure advance: at sample 4 the advance-and-checkpoint
  brings the example timer to 2 ms of its 3 ms interval, and \<open>stimer_advance\<close> leaves
  elapsed at zero.
\<close>

theorem advance_not_expired_counterexample:
  "run empty_heap [Alloc_context (Some 0) 255 1000000, Alloc (Some 0) (Some 4),
                   Expire_from_now_ms (Some 4) 3 2, Is_expired (Some 4) 3] = Some ex_heap \<and>
   map_option is_running (timers ex_heap 4) = Some True \<and>
   map_option (\<lambda>h. map_option elapsed (timers h 4)) (advance_and_checkpoint_2 ex_heap 4 4) =
     Some (Some \<lparr>seconds = 0, nanoseconds = 2000000\<rparr>) \<and>
   \<not> timer_duration_ge \<lparr>seconds = 0, nanoseconds = 2000000\<rparr> (expire_interval ex_timer) \<and>
   map_option (\<lambda>h. map_option elapsed (timers h 4)) (stimer_advance ex_heap (Some 4) 4) =
     Some (Some \<lparr>seconds = 0, nanoseconds = 0\<rparr>)"
  by (rule conjI [OF ex_heap_reachable])
     (simp add: stimer_advance_def advance_and_checkpoint_2_def advance_and_checkpoint_def
       ex_heap_def ex_timer_def ex_ctx_def tm_initialize_def advance_timer_duration_def
       word_sless_alt put_timer_def timer_duration_ge_def)

section \<open>Stopped timers\<close>

lemma stopped_with_put_timer:
  assumes "stopped_with h p e ei"
    and "q = p \<Longrightarrow> \<not> is_running ts \<and> elapsed ts = e \<and> expire_interval ts = ei"
  shows "stopped_with (put_timer h q ts) p e ei"
  using assms by (auto simp: stopped_with_def split: option.splits)

lemma stopped_with_put_ctx [simp]:
  "stopped_with (put_ctx h c cx) p e ei = stopped_with h p e ei"
  by (simp add: stopped_with_def)

lemma stopped_with_timer:
  "stopped_with h p e ei \<Longrightarrow> timers h p = Some ts \<Longrightarrow>
   \<not> is_running ts \<and> elapsed ts = e \<and> expire_interval ts = ei"
  by (simp add: stopped_with_def)

lemma advance_and_checkpoint_stopped:
  assumes "advance_and_checkpoint h q tmm now = Some h1" and "stopped_with h p e ei"
  shows "stopped_with h1 p e ei"
  using assms
  by (auto simp: advance_and_checkpoint_def Let_def bind_eq_Some_conv
      intro!: stopped_with_put_timer dest: stopped_with_timer split: if_splits)

lemma advance_and_checkpoint_2_stopped:
  assumes "advance_and_checkpoint_2 h q now = Some h1" and "stopped_with h p e ei"
  shows "stopped_with h1 p e ei"
  using assms
  by (auto simp: advance_and_checkpoint_2_def bind_eq_Some_conv
      dest: advance_and_checkpoint_stopped split: option.splits)

lemma start_and_checkpoint_stopped:
  assumes "start_and_checkpoint_timer h q now = Some h1" and "stopped_with h p e ei"
    and "q \<noteq> p"
  shows "stopped_with h1 p e ei"
  using assms
  by (auto simp: start_and_checkpoint_timer_def bind_eq_Some_conv
      intro!: stopped_with_put_timer split: option.splits)

lemma execute_loop_stopped:
  assumes "execute_loop tsp h tmm now = Some h1" and "stopped_with h p e ei"
  shows "stopped_with h1 p e ei"
  using assms
proof (induction tsp h tmm now h1 rule: execute_loop.raw_induct [rotated 1, consumes 1, case_names step])
  case (step loop tsp h tmm now h1)
  show ?case
  proof (cases tsp)
    case None
    with step show ?thesis by simp
  next
    case (Some q)
    with step.hyps obtain h2 ts where a: "advance_and_checkpoint h q tmm now = Some h2"
      and b: "timers h2 q = Some ts" and c: "loop (nxt ts) h2 tmm now = Some h1"
      by (auto simp: bind_eq_Some_conv)
    from advance_and_checkpoint_stopped [OF a step.prems] have "stopped_with h2 p e ei" .
    with step.IH [OF c] show ?thesis .
  qed
qed

lemma stimer_execute_context_stopped:
  assumes "stimer_execute_context h c now = Some h1" and "stopped_with h p e ei"
  shows "stopped_with h1 p e ei"
  using assms
  by (auto simp: stimer_execute_context_def bind_eq_Some_conv
      dest: execute_loop_stopped split: option.splits)

lemma unlink_find_stopped:
  assumes "unlink_find prev h q next_p = Some h1" and "stopped_with h p e ei"
  shows "stopped_with h1 p e ei"
  using assms
proof (induction prev h q next_p h1 rule: unlink_find.raw_induct [rotated 1, consumes 1, case_names step])
  case (step loop prev h q next_p h1)
  show ?case
  proof (cases prev)
    case None
    with step show ?thesis by simp
  next
    case (Some r)
    with step.hyps obtain rs where a: "timers h r = Some rs"
      and b: "(if nxt rs = Some q then Some (put_timer h r (rs\<lparr>nxt := next_p\<rparr>))
               else loop (nxt rs) h q next_p) = Some h1"
      by (auto simp: bind_eq_Some_conv)
    show ?thesis
    proof (cases "nxt rs = Some q")
      case True
      with b have "h1 = put_timer h r (rs\<lparr>nxt := next_p\<rparr>)" by simp
      then show ?thesis
        using step.prems a by (auto intro!: stopped_with_put_timer dest: stopped_with_timer)
    next
      case False
      with b have "loop (nxt rs) h q next_p = Some h1" by simp
      from step.IH [OF this step.prems] show ?thesis .
    qed
  qed
qed

lemma unlink_timer_stopped:
  assumes "unlink_timer h q = Some h1" and "stopped_with h p e ei"
  shows "stopped_with h1 p e ei"
proof -
  from assms(1) obtain ts where a: "timers h q = Some ts"
    by (auto simp: unlink_timer_def bind_eq_Some_conv)
  let ?h = "put_timer h q (ts\<lparr>nxt := None, ctx := None\<rparr>)"
  have s: "stopped_with ?h p e ei"
    using assms(2) a by (auto intro!: stopped_with_put_timer dest: stopped_with_timer)
  show ?thesis
    using assms(1) a s
    by (auto simp: unlink_timer_def Let_def bind_eq_Some_conv
        dest: unlink_find_stopped split: option.splits if_splits)
qed

lemma free_context_loop_stopped:
  assumes "free_context_loop h c = Some h1" and "stopped_with h p e ei"
  shows "stopped_with h1 p e ei"
  using assms
proof (induction h c h1 rule: free_context_loop.raw_induct [rotated 1, consumes 1, case_names step])
  case (step loop h c h1)
  from step.hyps obtain cx where a: "ctxs h c = Some cx"
    by (auto simp: bind_eq_Some_conv)
  show ?case
  proof (cases "root cx")
    case None
    with step.hyps step.prems a show ?thesis by simp
  next
    case (Some r)
    with step.hyps a obtain h2 where b: "unlink_timer h r = Some h2" and c: "loop h2 c = Some h1"
      by (auto simp: bind_eq_Some_conv)
    from step.IH [OF c unlink_timer_stopped [OF b step.prems]] show ?thesis .
  qed
qed

lemma stimer_free_context_stopped:
  assumes "stimer_free_context h c = Some h1" and "stopped_with h p e ei"
  shows "stopped_with h1 p e ei"
  using assms
  by (auto simp: stimer_free_context_def bind_eq_Some_conv stopped_with_def
      dest!: free_context_loop_stopped [where p = p and e = e and ei = ei]
      split: option.splits)

lemma link_timer_stopped:
  assumes "link_timer h c q = Some h1" and "stopped_with h p e ei"
  shows "stopped_with h1 p e ei"
  using assms
  by (auto simp: link_timer_def Let_def bind_eq_Some_conv stopped_with_def
      split: option.splits if_splits)

lemma stimer_alloc_stopped:
  assumes "stimer_alloc h c m = Some (h1, r)" and "stopped_with h p e ei" and "m \<noteq> Some p"
  shows "stopped_with h1 p e ei"
proof (cases "c = None \<or> m = None")
  case True
  with assms show ?thesis by (auto simp: stimer_alloc_def split: option.splits)
next
  case False
  then obtain c' q where c: "c = Some c'" and m: "m = Some q" by auto
  let ?ts = "\<lparr>ctx = None, nxt = None, checkpoint = 0,
              expire_interval = \<lparr>seconds = 0, nanoseconds = 0\<rparr>,
              elapsed = \<lparr>seconds = 0, nanoseconds = 0\<rparr>, is_running = False\<rparr>"
  have l: "link_timer (put_timer h q ?ts) c' q = Some h1"
    using assms(1) c m by (auto simp: stimer_alloc_def bind_eq_Some_conv)
  have "stopped_with (put_timer h q ?ts) p e ei"
    using assms(2,3) m by (auto intro!: stopped_with_put_timer)
  from link_timer_stopped [OF l this] show ?thesis .
qed

lemma stimer_free_stopped:
  assumes "stimer_free h t = Some h1" and "stopped_with h p e ei" and "t \<noteq> Some p"
  shows "stopped_with h1 p e ei"
proof (cases t)
  case None
  with assms show ?thesis by (simp add: stimer_free_def)
next
  case (Some q)
  with assms(1) obtain h2 where u: "unlink_timer h q = Some h2"
    and h1: "h1 = h2\<lparr>timers := (timers h2)(q := None)\<rparr>"
    by (auto simp: stimer_free_def bind_eq_Some_conv)
  from unlink_timer_stopped [OF u assms(2)] have "stopped_with h2 p e ei" .
  with h1 assms(3) Some show ?thesis by (simp add: stopped_with_def)
qed

lemma stimer_start_stopped:
  assumes "stimer_start h t now = Some h1" and "stopped_with h p e ei" and "t \<noteq> Some p"
  shows "stopped_with h1 p e ei"
  using assms
  by (cases t) (auto simp: stimer_start_def dest: start_and_checkpoint_stopped)

lemma stimer_stop_stopped:
  assumes "stimer_stop h t now = Some h1" and "stopped_with h p e ei"
  shows "stopped_with h1 p e ei"
proof (cases t)
  case None
  with assms show ?thesis by (simp add: stimer_stop_def)
next
  case (Some q)
  from assms(1) Some obtain ts where ts: "timers h q = Some ts"
    by (auto simp: stimer_stop_def bind_eq_Some_conv)
  show ?thesis
  proof (cases "ctx ts \<noteq> None \<and> is_running ts")
    case False
    with assms Some ts show ?thesis
      by (auto simp: stimer_stop_def split: option.splits)
  next
    case True
    then have "q \<noteq> p" using ts assms(2) by (auto dest: stopped_with_timer)
    from True obtain c where c: "ctx ts = Some c" by auto
    from assms(1) Some ts c True obtain cx where cx: "ctxs h c = Some cx"
      by (auto simp: stimer_stop_def bind_eq_Some_conv)
    from assms(1) Some ts c cx True obtain h2 where
      a: "advance_and_checkpoint h q (tm cx) now = Some h2"
      by (auto simp: stimer_stop_def bind_eq_Some_conv)
    from assms(1) Some ts c cx a True obtain ts2 where ts2: "timers h2 q = Some ts2"
      by (auto simp: stimer_stop_def bind_eq_Some_conv)
    have h1: "h1 = put_timer h2 q (ts2\<lparr>is_running := False\<rparr>)"
      using assms(1) Some ts c cx a ts2 True by (simp add: stimer_stop_def)
    from advance_and_checkpoint_stopped [OF a assms(2)] have "stopped_with h2 p e ei" .
    with h1 \<open>q \<noteq> p\<close> show ?thesis by (auto intro!: stopped_with_put_timer)
  qed
qed

lemma stimer_get_elapsed_time_stopped:
  assumes "stimer_get_elapsed_time h t d now = Some (h1, r)" and "stopped_with h p e ei"
  shows "stopped_with h1 p e ei"
  using assms
  by (cases t)
     (auto simp: stimer_get_elapsed_time_def bind_eq_Some_conv
       dest: advance_and_checkpoint_stopped split: if_splits)

lemma set_expire_interval_stopped:
  assumes "set_expire_interval h q d = Some h1" and "stopped_with h p e ei" and "q \<noteq> p"
  shows "stopped_with h1 p e ei"
  using assms
  by (auto simp: set_expire_interval_def bind_eq_Some_conv intro!: stopped_with_put_timer)

lemma stimer_expire_from_now_stopped:
  assumes "stimer_expire_from_now h t d now = Some h1" and "stopped_with h p e ei"
    and "t \<noteq> Some p"
  shows "stopped_with h1 p e ei"
  using assms
  by (cases t; cases d)
     (auto simp: stimer_expire_from_now_def bind_eq_Some_conv
       dest!: start_and_checkpoint_stopped [where p = p and e = e and ei = ei]
       dest: set_expire_interval_stopped)

lemma stimer_expire_from_now_s_stopped:
  assumes "stimer_expire_from_now_s h t n now = Some h1" and "stopped_with h p e ei"
    and "t \<noteq> Some p"
  shows "stopped_with h1 p e ei"
  using assms
  by (cases t)
     (auto simp: stimer_expire_from_now_s_def bind_eq_Some_conv
       dest!: start_and_checkpoint_stopped [where p = p and e = e and ei = ei]
       intro!: stopped_with_put_timer)

lemma stimer_expire_from_now_ms_stopped:
  assumes "stimer_expire_from_now_ms h t n now = Some h1" and "stopped_with h p e ei"
    and "t \<noteq> Some p"
  shows "stopped_with h1 p e ei"
  using assms
  by (cases t)
     (auto simp: stimer_expire_from_now_ms_def bind_eq_Some_conv
       dest!: start_and_checkpoint_stopped [where p = p and e = e and ei = ei]
       intro!: stopped_with_put_timer)

lemma stimer_expire_from_now_us_stopped:
  assumes "stimer_expire_from_now_us h t n now = Some h1" and "stopped_with h p e ei"
    and "t \<noteq> Some p"
  shows "stopped_with h1 p e ei"
  using assms
  by (cases t)
     (auto simp: stimer_expire_from_now_us_def bind_eq_Some_conv
       dest!: start_and_checkpoint_stopped [where p = p and e = e and ei = ei]
       intro!: stopped_with_put_timer)

lemma stimer_expire_from_now_ns_stopped:
  assumes "stimer_expire_from_now_ns h t n now = Some h1" and "stopped_with h p e ei"
    and "t \<noteq> Some p"
  shows "stopped_with h1 p e ei"
  using assms
  by (cases t)
     (auto simp: stimer_expire_from_now_ns_def bind_eq_Some_conv
       dest!: start_and_checkpoint_stopped [where p = p and e = e and ei = ei]
       intro!: stopped_with_put_timer)

lemma stimer_is_expired_stopped:
  assumes "stimer_is_expired h t now = Some (h1, b)" and "stopped_with h p e ei"
  shows "stopped_with h1 p e ei"
  using assms
  by (cases t)
     (auto simp: stimer_is_expired_def bind_eq_Some_conv dest: advance_and_checkpoint_2_stopped)

lemma stimer_restart_from_now_stopped:
  assumes "stimer_restart_from_now h t now = Some h1" and "stopped_with h p e ei"
  shows "stopped_with h1 p e ei"
proof (cases t)
  case None
  with assms show ?thesis by (simp add: stimer_restart_from_now_def)
next
  case (Some q)
  from assms(1) Some obtain ts where ts: "timers h q = Some ts"
    by (auto simp: stimer_restart_from_now_def bind_eq_Some_conv)
  show ?thesis
  proof (cases "is_running ts")
    case False
    with assms Some ts show ?thesis by (simp add: stimer_restart_from_now_def)
  next
    case True
    then have "q \<noteq> p" using ts assms(2) by (auto dest: stopped_with_timer)
    moreover have "start_and_checkpoint_timer h q now = Some h1"
      using True assms(1) Some ts by (simp add: stimer_restart_from_now_def)
    ultimately show ?thesis using assms(2) by (blast intro: start_and_checkpoint_stopped)
  qed
qed

lemma stimer_advance_stopped:
  assumes "stimer_advance h t now = Some h1" and "stopped_with h p e ei"
  shows "stopped_with h1 p e ei"
proof (cases t)
  case None
  with assms show ?thesis by (simp add: stimer_advance_def)
next
  case (Some q)
  from assms(1) Some obtain ts where ts: "timers h q = Some ts"
    by (auto simp: stimer_advance_def bind_eq_Some_conv)
  show ?thesis
  proof (cases "is_running ts")
    case False
    with assms Some ts show ?thesis by (simp add: stimer_advance_def)
  next
    case True
    then have "q \<noteq> p" using ts assms(2) by (auto dest: stopped_with_timer)
    from assms(1) Some ts True obtain h2 where
      a: "advance_and_checkpoint_2 h q now = Some h2"
      by (auto simp: stimer_advance_def bind_eq_Some_conv)
    from assms(1) Some ts a True obtain ts2 where ts2: "timers h2 q = Some ts2"
      by (auto simp: stimer_advance_def bind_eq_Some_conv)
    have "\<exists>e2. h1 = put_timer h2 q (ts2\<lparr>elapsed := e2\<rparr>)"
      using assms(1) Some ts a ts2 True
      by (cases "timer_duration_ge (elapsed ts2) (expire_interval ts2)")
         (auto simp: stimer_advance_def)
    then obtain e2 where h1: "h1 = put_timer h2 q (ts2\<lparr>elapsed := e2\<rparr>)" ..
    from advance_and_checkpoint_2_stopped [OF a assms(2)] have "stopped_with h2 p e ei" .
    with h1 \<open>q \<noteq> p\<close> show ?thesis by (auto intro!: stopped_with_put_timer)
  qed
qed

lemma do_call_stopped:
  assumes "do_call h c = Some h1" and "stopped_with h p e ei" and "\<not> restarts p c"
  shows "stopped_with h1 p e ei"
proof (cases c)
  case (Alloc_context m mt ns)
  with assms show ?thesis by (auto simp: stimer_alloc_context_def split: option.splits)
next
  case (Free_context x)
  with assms show ?thesis by (auto dest: stimer_free_context_stopped)
next
  case (Execute_context x now)
  with assms show ?thesis by (auto dest: stimer_execute_context_stopped)
next
  case (Alloc x m)
  with assms show ?thesis by (auto dest: stimer_alloc_stopped)
next
  case (Free t)
  with assms show ?thesis by (auto dest: stimer_free_stopped)
next
  case (Start t now)
  with assms show ?thesis by (auto dest: stimer_start_stopped)
next
  case (Stop t now)
  with assms show ?thesis by (auto dest: stimer_stop_stopped)
next
  case (Get_elapsed_time t d now)
  with assms show ?thesis by (auto dest: stimer_get_elapsed_time_stopped)
next
  case (Expire_from_now t d now)
  with assms show ?thesis by (auto dest: stimer_expire_from_now_stopped)
next
  case (Expire_from_now_s t n now)
  with assms show ?thesis by (auto dest: stimer_expire_from_now_s_stopped)
next
  case (Expire_from_now_ms t n now)
  with assms show ?thesis by (auto dest: stimer_expire_from_now_ms_stopped)
next
  case (Expire_from_now_us t n now)
  with assms show ?thesis by (auto dest: stimer_expire_from_now_us_stopped)
next
  case (Expire_from_now_ns t n now)
  with assms show ?thesis by (auto dest: stimer_expire_from_now_ns_stopped)
next
  case (Is_expired t now)
  with assms show ?thesis by (auto dest: stimer_is_expired_stopped)
next
  case (Restart_from_now t now)
  with assms show ?thesis by (auto dest: stimer_restart_from_now_stopped)
next
  case (Advance t now)
  with assms show ?thesis by (auto dest: stimer_advance_stopped)
qed

lemma run_stopped:
  assumes "run h cs = Some h1" and "stopped_with h p e ei" and "\<forall>c\<in>set cs. \<not> restarts p c"
  shows "stopped_with h1 p e ei"
  using assms
proof (induction cs arbitrary: h)
  case Nil
  then show ?case by simp
next
  case (Cons c cs)
  from Cons.prems(1) obtain h2 where a: "do_call h c = Some h2" and b: "run h2 cs = Some h1"
    by (auto simp: bind_eq_Some_conv)
  have "stopped_with h2 p e ei"
    using do_call_stopped [OF a Cons.prems(2)] Cons.prems(3) by simp
  from Cons.IH [OF b this] Cons.prems(3) show ?case by simp
qed

lemma stopped_get_elapsed_time:
  assumes "stopped_with h p e ei"
  shows "stimer_get_elapsed_time h (Some p) (Some d) now = Some (h, Some e)"
  using assms
  by (auto simp: stimer_get_elapsed_time_def stopped_with_def split: option.splits)

lemma advance_and_checkpoint_returns:
  assumes "timers h p = Some ts" and "ctx ts = Some c" and "ctxs h c = Some cx"
  shows "\<exists>h1 ts1. advance_and_checkpoint h p tmm now = Some h1 \<and> timers h1 p = Some ts1 \<and>
           is_running ts1 = is_running ts \<and> expire_interval ts1 = expire_interval ts \<and>
           ctx ts1 = ctx ts \<and> ctxs h1 = ctxs h"
  using assms by (simp add: advance_and_checkpoint_def Let_def)

lemma stimer_stop_clears_running:
  assumes "timers h p = Some ts" and "ctx ts = Some c" and "ctxs h c = Some cx"
  shows "\<exists>h1 ts1. stimer_stop h (Some p) now = Some h1 \<and> timers h1 p = Some ts1 \<and>
           \<not> is_running ts1"
proof (cases "is_running ts")
  case False
  with assms show ?thesis by (simp add: stimer_stop_def)
next
  case True
  obtain h2 ts2 where "advance_and_checkpoint h p (tm cx) now = Some h2"
    and "timers h2 p = Some ts2"
    using advance_and_checkpoint_returns [OF assms] by blast
  with True assms show ?thesis by (simp add: stimer_stop_def)
qed

text \<open>
  C5. Once \<open>stimer_stop\<close> has returned with the running flag of timer \<open>p\<close> cleared, then
  after any sequence of further calls that returns and contains no restart of \<open>p\<close> (so
  for any samples of the counter, any context sweeps, and any queries, stops,
  \<open>stimer_restart_from_now\<close> or \<open>stimer_advance\<close> calls on any timer),
  \<open>stimer_get_elapsed_time\<close> changes nothing and returns the elapsed duration recorded at
  stop time.
\<close>

theorem stop_freezes_elapsed:
  assumes "stimer_stop h0 (Some p) now0 = Some h1"
    and "timers h1 p = Some ts1" and "\<not> is_running ts1"
    and "\<forall>c\<in>set cs. \<not> restarts p c"
    and "run h1 cs = Some h2"
  shows "stimer_get_elapsed_time h2 (Some p) (Some d) now = Some (h2, Some (elapsed ts1))"
proof -
  have "stopped_with h1 p (elapsed ts1) (expire_interval ts1)"
    using assms(2,3) by (simp add: stopped_with_def)
  from run_stopped [OF assms(5) this assms(4)]
  show ?thesis by (rule stopped_get_elapsed_time)
qed

lemma ex_stop: "stimer_stop ex_heap (Some 4) 5 = Some ex_stopped"
  by (simp add: stimer_stop_def ex_stopped_def advance_and_checkpoint_def ex_heap_def ex_timer_def
      ex_ctx_def tm_initialize_def advance_timer_duration_def word_sless_alt put_timer_def)

lemma ex_stopped_timer:
  "timers ex_stopped 4 =
   Some (ex_timer\<lparr>checkpoint := 5, elapsed := \<lparr>seconds = 0, nanoseconds = 3000000\<rparr>,
                  is_running := False\<rparr>)"
  by (simp add: ex_stopped_def)

lemma ex_run: "run ex_stopped ex_calls = Some ex_stopped"
  by (simp add: ex_calls_def ex_stopped_def stimer_execute_context_def execute_loop.simps
      stimer_is_expired_def stimer_advance_def stimer_restart_from_now_def
      stimer_get_elapsed_time_def advance_and_checkpoint_2_def advance_and_checkpoint_def
      ex_heap_def ex_timer_def ex_ctx_def put_timer_def)

theorem stop_freezes_elapsed_witness:
  "stimer_stop ex_heap (Some 4) 5 = Some ex_stopped \<and>
   list_all (\<lambda>c. \<not> restarts 4 c) ex_calls \<and>
   run ex_stopped ex_calls = Some ex_stopped \<and>
   stimer_get_elapsed_time ex_stopped (Some 4) (Some ex_duration) 99 =
     Some (ex_stopped, Some \<lparr>seconds = 0, nanoseconds = 3000000\<rparr>)"
proof -
  have a: "\<not> is_running (ex_timer\<lparr>checkpoint := 5,
              elapsed := \<lparr>seconds = 0, nanoseconds = 3000000\<rparr>, is_running := False\<rparr>)"
    by simp
  have b: "\<forall>c\<in>set ex_calls. \<not> restarts 4 c" by (simp add: ex_calls_def)
  from stop_freezes_elapsed [OF ex_stop ex_stopped_timer a b ex_run, of ex_duration 99]
    ex_stop b ex_run
  show ?thesis by (simp add: list_all_iff)
qed

section \<open>Detached timers\<close>

lemma ex_free_context: "stimer_free_context ex_heap (Some 0) = Some ex_detached"
  by (simp add: stimer_free_context_def free_context_loop.simps unlink_timer_def ex_heap_def
      ex_ctx_def ex_detached_def put_timer_def put_ctx_def ex_timer_def)

lemma advance_and_checkpoint_2_detached:
  assumes "timers h p = Some ts" and "ctx ts = None"
  shows "advance_and_checkpoint_2 h p now = Some h"
  using assms by (simp add: advance_and_checkpoint_2_def)

text \<open>
  C4, as amended. For a detached timer (its context pointer is \<open>NULL\<close>):
  \<open>stimer_get_elapsed_time\<close> and \<open>stimer_is_expired\<close> return the last recorded elapsed
  duration and its comparison with the expire interval, and change nothing;
  \<open>stimer_start\<close>, \<open>stimer_stop\<close> and \<open>stimer_restart_from_now\<close> change nothing; every
  expiration setter leaves elapsed, checkpoint and running flag as they are and stores the
  given interval as the expire interval; \<open>stimer_advance\<close> changes nothing on a stopped
  timer, and on a running one leaves checkpoint, running flag and expire interval as they
  are and replaces elapsed as it does for an attached timer (minus one interval when
  expired, zero otherwise).
\<close>

theorem detached_timer_operations:
  assumes "timers h p = Some ts" and "ctx ts = None"
  shows "stimer_get_elapsed_time h (Some p) (Some d) now = Some (h, Some (elapsed ts)) \<and>
         stimer_is_expired h (Some p) now =
           Some (h, timer_duration_ge (elapsed ts) (expire_interval ts)) \<and>
         stimer_start h (Some p) now = Some h \<and>
         stimer_stop h (Some p) now = Some h \<and>
         stimer_restart_from_now h (Some p) now = Some h \<and>
         stimer_expire_from_now h (Some p) (Some d) now =
           Some (put_timer h p (ts\<lparr>expire_interval := d\<rparr>)) \<and>
         stimer_expire_from_now_s h (Some p) n now =
           Some (put_timer h p (ts\<lparr>expire_interval := \<lparr>seconds = n, nanoseconds = 0\<rparr>\<rparr>)) \<and>
         stimer_expire_from_now_ms h (Some p) n now =
           Some (put_timer h p (ts\<lparr>expire_interval :=
                   \<lparr>seconds = n div 1000, nanoseconds = (n mod 1000) * 1000000\<rparr>\<rparr>)) \<and>
         stimer_expire_from_now_us h (Some p) n now =
           Some (put_timer h p (ts\<lparr>expire_interval :=
                   \<lparr>seconds = n div 1000000, nanoseconds = (n mod 1000000) * 1000\<rparr>\<rparr>)) \<and>
         stimer_expire_from_now_ns h (Some p) n now =
           Some (put_timer h p (ts\<lparr>expire_interval :=
                   \<lparr>seconds = n div 1000000000, nanoseconds = n mod 1000000000\<rparr>\<rparr>)) \<and>
         stimer_advance h (Some p) now =
           Some (if is_running ts
                 then put_timer h p
                        (ts\<lparr>elapsed :=
                              if timer_duration_ge (elapsed ts) (expire_interval ts)
                              then consume_interval (elapsed ts) (expire_interval ts)
                              else \<lparr>seconds = 0, nanoseconds = 0\<rparr>\<rparr>)
                 else h)"
  using assms
  by (simp add: stimer_get_elapsed_time_def stimer_is_expired_def stimer_start_def
      stimer_stop_def stimer_restart_from_now_def stimer_expire_from_now_def
      stimer_expire_from_now_s_def stimer_expire_from_now_ms_def stimer_expire_from_now_us_def
      stimer_expire_from_now_ns_def stimer_advance_def set_expire_interval_def
      start_and_checkpoint_detached [OF assms] advance_and_checkpoint_2_detached [OF assms])

lemma ex_detached_timer: "timers ex_detached 4 = Some (ex_timer\<lparr>ctx := None, nxt := None\<rparr>)"
  by (simp add: ex_detached_def)

theorem detached_timer_operations_witness:
  "timers ex_detached 4 = Some (ex_timer\<lparr>ctx := None, nxt := None\<rparr>) \<and>
   ctx (ex_timer\<lparr>ctx := None, nxt := None\<rparr>) = None \<and>
   stimer_is_expired ex_detached (Some 4) 200 = Some (ex_detached, False) \<and>
   stimer_get_elapsed_time ex_detached (Some 4) (Some ex_duration) 200 =
     Some (ex_detached, Some \<lparr>seconds = 0, nanoseconds = 1000000\<rparr>) \<and>
   stimer_start ex_detached (Some 4) 200 = Some ex_detached"
proof -
  have a: "ctx (ex_timer\<lparr>ctx := None, nxt := None\<rparr>) = None" by simp
  from detached_timer_operations [OF ex_detached_timer a, of ex_duration 200]
  show ?thesis by (simp add: ex_detached_timer timer_duration_ge_def ex_timer_def)
qed

text \<open>
  Freeing the context of the example store detaches its running timer. On that timer
  \<open>stimer_expire_from_now_s\<close> still replaces the expire interval and \<open>stimer_advance\<close>
  still changes elapsed.
\<close>

theorem detached_timer_operations_counterexample:
  "stimer_free_context ex_heap (Some 0) = Some ex_detached \<and>
   map_option ctx (timers ex_detached 4) = Some None \<and>
   map_option expire_interval (timers ex_detached 4) =
     Some \<lparr>seconds = 0, nanoseconds = 3000000\<rparr> \<and>
   stored_interval (stimer_expire_from_now_s ex_detached (Some 4) 9 200) 4 =
     Some \<lparr>seconds = 9, nanoseconds = 0\<rparr> \<and>
   map_option elapsed (timers ex_detached 4) = Some \<lparr>seconds = 0, nanoseconds = 1000000\<rparr> \<and>
   map_option (\<lambda>h. map_option elapsed (timers h 4)) (stimer_advance ex_detached (Some 4) 200) =
     Some (Some \<lparr>seconds = 0, nanoseconds = 0\<rparr>)"
  by (simp add: ex_free_context ex_detached_def ex_timer_def stored_interval_def
      stimer_expire_from_now_s_def start_and_checkpoint_timer_def stimer_advance_def
      advance_and_checkpoint_2_def timer_duration_ge_def put_timer_def)

section \<open>Polling for expiration\<close>

text \<open>What \<open>stimer_is_expired\<close> does to the timer it polls.\<close>

lemma stimer_is_expired_cases:
  assumes "stimer_is_expired h (Some p) now = Some (h1, b)"
  obtains (same) ts where "timers h p = Some ts" and "no_dangling_ctx h ts" and "h1 = h"
      and "b = timer_duration_ge (elapsed ts) (expire_interval ts)"
      and "\<forall>c cx. ctx ts = Some c \<and> ctxs h c = Some cx \<and> is_running ts \<longrightarrow>
             \<not> 0 <s tm cx now (checkpoint ts)"
    | (advanced) ts c cx where "timers h p = Some ts" and "ctx ts = Some c"
      and "ctxs h c = Some cx" and "is_running ts" and "0 <s tm cx now (checkpoint ts)"
      and "h1 = put_timer h p
                  (ts\<lparr>elapsed := advance_timer_duration (elapsed ts)
                                    (tm cx now (checkpoint ts) * ns_per_count cx),
                      checkpoint := now\<rparr>)"
      and "b = timer_duration_ge
                 (advance_timer_duration (elapsed ts) (tm cx now (checkpoint ts) * ns_per_count cx))
                 (expire_interval ts)"
proof -
  from assms obtain ts where ts: "timers h p = Some ts"
    by (auto simp: stimer_is_expired_def advance_and_checkpoint_2_def bind_eq_Some_conv)
  show thesis
  proof (cases "ctx ts")
    case None
    with assms ts show ?thesis
      by (intro same [of ts])
         (auto simp: stimer_is_expired_def advance_and_checkpoint_2_def no_dangling_ctx_def)
  next
    case (Some c)
    with assms ts obtain cx where cx: "ctxs h c = Some cx"
      by (auto simp: stimer_is_expired_def advance_and_checkpoint_2_def bind_eq_Some_conv)
    show ?thesis
    proof (cases "is_running ts \<and> 0 <s tm cx now (checkpoint ts)")
      case True
      with assms ts Some cx show ?thesis
        by (intro advanced [of ts c cx])
           (auto simp: stimer_is_expired_def advance_and_checkpoint_2_def
             advance_and_checkpoint_def Let_def)
    next
      case False
      with assms ts Some cx show ?thesis
        by (intro same [of ts])
           (auto simp: stimer_is_expired_def advance_and_checkpoint_2_def
             advance_and_checkpoint_def Let_def no_dangling_ctx_def split: if_splits)
    qed
  qed
qed

lemma stimer_is_expired_again:
  assumes "stimer_is_expired h (Some p) now = Some (h1, b)" and "no_progress_at h p now"
  shows "stimer_is_expired h1 (Some p) now = Some (h1, b) \<and> no_progress_at h1 p now"
  using assms(1)
proof (cases rule: stimer_is_expired_cases)
  case (same ts)
  with assms show ?thesis by simp
next
  case (advanced ts c cx)
  with assms(2) have "\<not> 0 <s tm cx now now" by (simp add: no_progress_at_def)
  with advanced show ?thesis
    by (simp add: stimer_is_expired_def advance_and_checkpoint_2_def advance_and_checkpoint_def
        Let_def no_progress_at_def)
qed

lemma poll_same_sample:
  assumes "stimer_is_expired h (Some p) now = Some (h1, b)" and "no_progress_at h p now"
  shows "poll h1 p (replicate n now) = Some (h1, replicate n b)"
  using stimer_is_expired_again [OF assms]
  by (induction n) simp_all

lemma advance_timer_duration_ge:
  assumes "timer_duration_ge e ei" and "nanoseconds e < 1000000000"
    and "seconds e < 4294967295"
  shows "timer_duration_ge (advance_timer_duration e n) ei"
proof (cases "n < 1000000000 - nanoseconds e")
  case True
  have hr: "unat (1000000000 - nanoseconds e) = 1000000000 - unat (nanoseconds e)"
    using assms(2) by (simp add: unat_sub)
  have "unat n < 1000000000 - unat (nanoseconds e)"
    using True hr by (simp add: word_less_nat_alt)
  then have "unat (nanoseconds e) + unat n < 2 ^ LENGTH(32)" by simp
  then have "unat (nanoseconds e + n) = unat (nanoseconds e) + unat n"
    by (simp add: unat_add_lem [THEN iffD1])
  then have "nanoseconds e \<le> nanoseconds e + n" by (simp add: word_le_nat_alt)
  with assms(1) True show ?thesis
    by (auto simp: advance_timer_duration_def timer_duration_ge_def split: if_splits)
next
  case False
  have "unat (seconds e) < 4294967295" using assms(3) by (simp add: word_less_nat_alt)
  then have "unat (seconds e + 1) = unat (seconds e) + 1"
    by (simp add: unat_succ_seconds)
  then have lt: "seconds e < seconds e + 1" by (simp add: word_less_nat_alt)
  have "seconds ei \<le> seconds e"
    using assms(1) by (auto simp: timer_duration_ge_def split: if_splits)
  with lt have "seconds ei < seconds e + 1" by simp
  with False show ?thesis
    by (simp add: advance_timer_duration_def timer_duration_ge_def)
qed

lemma stimer_is_expired_returns:
  assumes "timers h p = Some ts" and "no_dangling_ctx h ts"
  shows "\<exists>h1 b. stimer_is_expired h (Some p) now = Some (h1, b)"
  using assms
  by (auto simp: stimer_is_expired_def advance_and_checkpoint_2_def advance_and_checkpoint_def
      Let_def no_dangling_ctx_def split: option.splits)

lemma ex_poll_6: "stimer_is_expired ex_heap (Some 4) 6 = Some (ex_polled, True)"
  by (simp add: stimer_is_expired_def ex_polled_def ex_heap_advance_6 timer_duration_ge_def
      ex_timer_def)

lemma ex_no_progress: "no_progress_at ex_heap 4 6"
  by (simp add: no_progress_at_def ex_heap_def ex_timer_def ex_ctx_def tm_initialize_def)

subsection \<open>The clock of a timer\<close>

lemma clock_put_timer [simp]:
  "clock (put_timer h q ts) p =
   (if p = q then Some (elapsed ts, expire_interval ts) else clock h p)"
  by (simp add: clock_def)

lemma clock_put_ctx [simp]: "clock (put_ctx h c cx) p = clock h p"
  by (simp add: clock_def)

lemma clock_ctxs_update [simp]: "clock (h\<lparr>ctxs := x\<rparr>) p = clock h p"
  by (simp add: clock_def)

lemma clock_Some:
  "timers h p = Some ts \<Longrightarrow> clock h p = Some (elapsed ts, expire_interval ts)"
  by (simp add: clock_def)

lemma stepped_same: "clock h1 p = clock h p \<Longrightarrow> stepped h h1 p"
  by (simp add: stepped_def)

lemma stepped_before: "clock h2 p = clock h p \<Longrightarrow> stepped h2 h1 p \<Longrightarrow> stepped h h1 p"
  by (simp add: stepped_def)

lemma stepped_after: "stepped h h2 p \<Longrightarrow> clock h1 p = clock h2 p \<Longrightarrow> stepped h h1 p"
  by (simp add: stepped_def)

lemma advance_and_checkpoint_other:
  assumes "advance_and_checkpoint h q tmm now = Some h1" and "q \<noteq> p"
  shows "clock h1 p = clock h p"
  using assms
  by (auto simp: advance_and_checkpoint_def Let_def bind_eq_Some_conv split: if_splits)

lemma advance_and_checkpoint_stepped:
  assumes "advance_and_checkpoint h q tmm now = Some h1"
  shows "stepped h h1 p"
proof (cases "q = p")
  case False
  with assms show ?thesis by (auto intro: stepped_same advance_and_checkpoint_other)
next
  case True
  from assms obtain ts where ts: "timers h q = Some ts"
    by (auto simp: advance_and_checkpoint_def bind_eq_Some_conv)
  show ?thesis
  proof (cases "is_running ts \<and> 0 <s tmm now (checkpoint ts)")
    case False
    with assms ts have "h1 = h"
      by (auto simp: advance_and_checkpoint_def Let_def split: if_splits)
    then show ?thesis by (simp add: stepped_def)
  next
    case T2: True
    with assms ts obtain n where
      "h1 = put_timer h q (ts\<lparr>elapsed := advance_timer_duration (elapsed ts) n,
                               checkpoint := now\<rparr>)"
      by (auto simp: advance_and_checkpoint_def Let_def bind_eq_Some_conv)
    with True ts show ?thesis
      by (auto simp: stepped_def clock_Some)
  qed
qed

lemma advance_and_checkpoint_nxt:
  assumes "advance_and_checkpoint h q tmm now = Some h1"
  shows "map_option nxt (timers h1 r) = map_option nxt (timers h r)"
  using assms
  by (auto simp: advance_and_checkpoint_def Let_def bind_eq_Some_conv split: if_splits)

subsection \<open>The list a sweep walks\<close>

lemma chain_cong:
  assumes "\<And>r. map_option nxt (timers h1 r) = map_option nxt (timers h r)"
  shows "chain h1 x ps = chain h x ps"
proof (induction ps arbitrary: x)
  case Nil
  show ?case by simp
next
  case (Cons q ps)
  show ?case
  proof (cases "timers h q")
    case None
    with assms [of q] show ?thesis by simp
  next
    case (Some ts)
    with assms [of q] obtain ts1 where "timers h1 q = Some ts1" and "nxt ts1 = nxt ts"
      by auto
    with Some Cons.IH show ?thesis by simp
  qed
qed

lemma chain_unique: "chain h x ps \<Longrightarrow> chain h x qs \<Longrightarrow> ps = qs"
proof (induction ps arbitrary: x qs)
  case Nil
  then show ?case by (cases qs) auto
next
  case (Cons q ps)
  then show ?case by (cases qs) (auto split: option.splits)
qed

lemma chain_from_member:
  "chain h x ps \<Longrightarrow> q \<in> set ps \<Longrightarrow> \<exists>as bs. ps = as @ q # bs \<and> chain h (Some q) (q # bs)"
proof (induction ps arbitrary: x)
  case Nil
  then show ?case by simp
next
  case (Cons r ps)
  show ?case
  proof (cases "q = r")
    case True
    with Cons.prems(1) have "chain h (Some q) (q # ps)" by simp
    with True show ?thesis by blast
  next
    case False
    with Cons.prems obtain ts where "timers h r = Some ts" and c: "chain h (nxt ts) ps"
      and m: "q \<in> set ps"
      by (auto split: option.splits)
    from Cons.IH [OF c m] obtain as bs where "ps = as @ q # bs"
      and "chain h (Some q) (q # bs)" by blast
    then have "r # ps = (r # as) @ q # bs" by simp
    with \<open>chain h (Some q) (q # bs)\<close> show ?thesis by blast
  qed
qed

lemma chain_distinct: "chain h x ps \<Longrightarrow> distinct ps"
proof (induction ps arbitrary: x)
  case Nil
  show ?case by simp
next
  case (Cons q ps)
  from Cons.prems obtain ts where "timers h q = Some ts" and c: "chain h (nxt ts) ps"
    by (auto split: option.splits)
  have "q \<notin> set ps"
  proof
    assume "q \<in> set ps"
    from chain_from_member [OF c this] obtain as bs where ps: "ps = as @ q # bs"
      and c1: "chain h (Some q) (q # bs)" by blast
    have c2: "chain h (Some q) (q # ps)" using Cons.prems by simp
    have "q # bs = q # ps" by (rule chain_unique [OF c1 c2])
    with ps have "length ps = length as + Suc (length ps)" by simp
    then show False by simp
  qed
  with Cons.IH [OF c] show ?case by simp
qed

lemma execute_loop_sweep:
  assumes "execute_loop tsp h tmm now = Some h1"
  shows "\<exists>ps. chain h tsp ps \<and> sweep ps h tmm now = Some h1"
  using assms
proof (induction tsp h tmm now h1 rule: execute_loop.raw_induct [rotated 1, consumes 1, case_names step])
  case (step loop tsp h tmm now h1)
  show ?case
  proof (cases tsp)
    case None
    with step.hyps have "h1 = h" by simp
    with None have "chain h tsp [] \<and> sweep [] h tmm now = Some h1" by simp
    then show ?thesis by blast
  next
    case (Some q)
    with step.hyps obtain h2 ts where a: "advance_and_checkpoint h q tmm now = Some h2"
      and b: "timers h2 q = Some ts" and c: "loop (nxt ts) h2 tmm now = Some h1"
      by (auto simp: bind_eq_Some_conv)
    from step.IH [OF c] obtain ps where p1: "chain h2 (nxt ts) ps"
      and p2: "sweep ps h2 tmm now = Some h1" by blast
    have same: "chain h2 x qs = chain h x qs" for x qs
      by (rule chain_cong) (rule advance_and_checkpoint_nxt [OF a])
    from advance_and_checkpoint_nxt [OF a, of q] b
    obtain ts0 where t0: "timers h q = Some ts0" and n0: "nxt ts0 = nxt ts"
      by (cases "timers h q") auto
    have "chain h tsp (q # ps)" using Some t0 n0 p1 same by simp
    moreover have "sweep (q # ps) h tmm now = Some h1" using a p2 by simp
    ultimately show ?thesis by blast
  qed
qed

lemma sweep_other:
  assumes "sweep ps h tmm now = Some h1" and "p \<notin> set ps"
  shows "clock h1 p = clock h p"
  using assms
proof (induction ps arbitrary: h)
  case Nil
  then show ?case by simp
next
  case (Cons q ps)
  from Cons.prems(1) obtain h2 where a: "advance_and_checkpoint h q tmm now = Some h2"
    and b: "sweep ps h2 tmm now = Some h1"
    by (auto simp: bind_eq_Some_conv)
  from Cons.prems(2) have "q \<noteq> p" and "p \<notin> set ps" by auto
  with Cons.IH [OF b] advance_and_checkpoint_other [OF a] show ?case by simp
qed

lemma sweep_stepped:
  assumes "sweep ps h tmm now = Some h1" and "distinct ps"
  shows "stepped h h1 p"
  using assms
proof (induction ps arbitrary: h)
  case Nil
  then show ?case by (simp add: stepped_def)
next
  case (Cons q ps)
  from Cons.prems(1) obtain h2 where a: "advance_and_checkpoint h q tmm now = Some h2"
    and b: "sweep ps h2 tmm now = Some h1"
    by (auto simp: bind_eq_Some_conv)
  from Cons.prems(2) have d: "distinct ps" and n: "q \<notin> set ps" by auto
  show ?case
  proof (cases "q = p")
    case True
    with n have "clock h1 p = clock h2 p" using sweep_other [OF b] by simp
    with advance_and_checkpoint_stepped [OF a] show ?thesis by (rule stepped_after)
  next
    case False
    from advance_and_checkpoint_other [OF a False] Cons.IH [OF b d]
    show ?thesis by (rule stepped_before)
  qed
qed

lemma stimer_execute_context_stepped:
  assumes "stimer_execute_context h c now = Some h1"
  shows "stepped h h1 p"
proof (cases c)
  case None
  with assms show ?thesis by (simp add: stimer_execute_context_def stepped_def)
next
  case (Some c')
  with assms obtain cx where cx: "ctxs h c' = Some cx"
    by (auto simp: stimer_execute_context_def bind_eq_Some_conv)
  with assms Some have "execute_loop (root cx) h (tm cx) now = Some h1"
    by (simp add: stimer_execute_context_def)
  from execute_loop_sweep [OF this] obtain ps where "chain h (root cx) ps"
    and "sweep ps h (tm cx) now = Some h1" by blast
  then show ?thesis by (auto intro: sweep_stepped chain_distinct)
qed

subsection \<open>Calls that leave the clock alone\<close>

lemma unlink_find_clock:
  assumes "unlink_find prev h q next_p = Some h1"
  shows "clock h1 p = clock h p"
  using assms
proof (induction prev h q next_p h1 rule: unlink_find.raw_induct [rotated 1, consumes 1, case_names step])
  case (step loop prev h q next_p h1)
  show ?case
  proof (cases prev)
    case None
    with step.hyps show ?thesis by simp
  next
    case (Some r)
    with step.hyps obtain rs where a: "timers h r = Some rs"
      and b: "(if nxt rs = Some q then Some (put_timer h r (rs\<lparr>nxt := next_p\<rparr>))
               else loop (nxt rs) h q next_p) = Some h1"
      by (auto simp: bind_eq_Some_conv)
    show ?thesis
    proof (cases "nxt rs = Some q")
      case True
      with b have "h1 = put_timer h r (rs\<lparr>nxt := next_p\<rparr>)" by simp
      with a show ?thesis by (simp add: clock_Some)
    next
      case False
      with b have "loop (nxt rs) h q next_p = Some h1" by simp
      then show ?thesis by (rule step.IH)
    qed
  qed
qed

lemma unlink_timer_clock:
  assumes "unlink_timer h q = Some h1"
  shows "clock h1 p = clock h p"
proof -
  from assms obtain ts where a: "timers h q = Some ts"
    by (auto simp: unlink_timer_def bind_eq_Some_conv)
  let ?h = "put_timer h q (ts\<lparr>nxt := None, ctx := None\<rparr>)"
  have s: "clock ?h p = clock h p" using a by (simp add: clock_Some)
  show ?thesis
  proof (cases "ctx ts")
    case None
    with assms a s show ?thesis by (simp add: unlink_timer_def Let_def)
  next
    case (Some c)
    with assms a obtain cx where cx: "ctxs ?h c = Some cx"
      by (auto simp: unlink_timer_def Let_def bind_eq_Some_conv)
    show ?thesis
    proof (cases "root cx = Some q")
      case True
      with assms a Some cx have "h1 = put_ctx ?h c (cx\<lparr>root := nxt ts\<rparr>)"
        by (simp add: unlink_timer_def Let_def)
      with s show ?thesis by simp
    next
      case False
      with assms a Some cx have "unlink_find (root cx) ?h q (nxt ts) = Some h1"
        by (simp add: unlink_timer_def Let_def)
      from unlink_find_clock [OF this] s show ?thesis by simp
    qed
  qed
qed

lemma free_context_loop_clock:
  assumes "free_context_loop h c = Some h1"
  shows "clock h1 p = clock h p"
  using assms
proof (induction h c h1 rule: free_context_loop.raw_induct [rotated 1, consumes 1, case_names step])
  case (step loop h c h1)
  from step.hyps obtain cx where a: "ctxs h c = Some cx"
    by (auto simp: bind_eq_Some_conv)
  show ?case
  proof (cases "root cx")
    case None
    with step.hyps a show ?thesis by simp
  next
    case (Some r)
    with step.hyps a obtain h2 where b: "unlink_timer h r = Some h2" and c: "loop h2 c = Some h1"
      by (auto simp: bind_eq_Some_conv)
    from step.IH [OF c] unlink_timer_clock [OF b] show ?thesis by simp
  qed
qed

lemma stimer_free_context_clock:
  assumes "stimer_free_context h c = Some h1"
  shows "clock h1 p = clock h p"
  using assms
  by (cases c) (auto simp: stimer_free_context_def bind_eq_Some_conv dest: free_context_loop_clock)

lemma link_timer_clock:
  assumes "link_timer h c q = Some h1" and "q \<noteq> p"
  shows "clock h1 p = clock h p"
  using assms
  by (auto simp: link_timer_def Let_def bind_eq_Some_conv split: if_splits)

lemma stimer_alloc_clock:
  assumes "stimer_alloc h c m = Some (h1, r)" and "m \<noteq> Some p"
  shows "clock h1 p = clock h p"
proof (cases "c = None \<or> m = None")
  case True
  with assms show ?thesis by (auto simp: stimer_alloc_def split: option.splits)
next
  case False
  then obtain c' q where c: "c = Some c'" and m: "m = Some q" by auto
  let ?ts = "\<lparr>ctx = None, nxt = None, checkpoint = 0,
              expire_interval = \<lparr>seconds = 0, nanoseconds = 0\<rparr>,
              elapsed = \<lparr>seconds = 0, nanoseconds = 0\<rparr>, is_running = False\<rparr>"
  have l: "link_timer (put_timer h q ?ts) c' q = Some h1"
    using assms(1) c m by (auto simp: stimer_alloc_def bind_eq_Some_conv)
  have "q \<noteq> p" using assms(2) m by simp
  with link_timer_clock [OF l this] show ?thesis by simp
qed

lemma stimer_free_clock:
  assumes "stimer_free h t = Some h1" and "t \<noteq> Some p"
  shows "clock h1 p = clock h p"
proof (cases t)
  case None
  with assms show ?thesis by (simp add: stimer_free_def)
next
  case (Some q)
  with assms(1) obtain h2 where u: "unlink_timer h q = Some h2"
    and h1: "h1 = h2\<lparr>timers := (timers h2)(q := None)\<rparr>"
    by (auto simp: stimer_free_def bind_eq_Some_conv)
  have "clock h1 p = clock h2 p" using h1 assms(2) Some by (simp add: clock_def)
  with unlink_timer_clock [OF u] show ?thesis by simp
qed

lemma start_and_checkpoint_clock:
  assumes "start_and_checkpoint_timer h q now = Some h1" and "q \<noteq> p"
  shows "clock h1 p = clock h p"
  using assms
  by (auto simp: start_and_checkpoint_timer_def bind_eq_Some_conv split: option.splits)

lemma stimer_start_clock:
  assumes "stimer_start h t now = Some h1" and "t \<noteq> Some p"
  shows "clock h1 p = clock h p"
  using assms by (cases t) (auto simp: stimer_start_def dest: start_and_checkpoint_clock)

lemma stimer_expire_from_now_clock:
  assumes "stimer_expire_from_now h t d now = Some h1" and "t \<noteq> Some p"
  shows "clock h1 p = clock h p"
  using assms
  by (cases t; cases d)
     (auto simp: stimer_expire_from_now_def set_expire_interval_def bind_eq_Some_conv
       dest!: start_and_checkpoint_clock [where p = p])

lemma stimer_expire_from_now_s_clock:
  assumes "stimer_expire_from_now_s h t n now = Some h1" and "t \<noteq> Some p"
  shows "clock h1 p = clock h p"
  using assms
  by (cases t)
     (auto simp: stimer_expire_from_now_s_def bind_eq_Some_conv
       dest!: start_and_checkpoint_clock [where p = p])

lemma stimer_expire_from_now_ms_clock:
  assumes "stimer_expire_from_now_ms h t n now = Some h1" and "t \<noteq> Some p"
  shows "clock h1 p = clock h p"
  using assms
  by (cases t)
     (auto simp: stimer_expire_from_now_ms_def bind_eq_Some_conv
       dest!: start_and_checkpoint_clock [where p = p])

lemma stimer_expire_from_now_us_clock:
  assumes "stimer_expire_from_now_us h t n now = Some h1" and "t \<noteq> Some p"
  shows "clock h1 p = clock h p"
  using assms
  by (cases t)
     (auto simp: stimer_expire_from_now_us_def bind_eq_Some_conv
       dest!: start_and_checkpoint_clock [where p = p])

lemma stimer_expire_from_now_ns_clock:
  assumes "stimer_expire_from_now_ns h t n now = Some h1" and "t \<noteq> Some p"
  shows "clock h1 p = clock h p"
  using assms
  by (cases t)
     (auto simp: stimer_expire_from_now_ns_def bind_eq_Some_conv
       dest!: start_and_checkpoint_clock [where p = p])

lemma stimer_restart_from_now_clock:
  assumes "stimer_restart_from_now h t now = Some h1" and "t \<noteq> Some p"
  shows "clock h1 p = clock h p"
  using assms
  by (cases t)
     (auto simp: stimer_restart_from_now_def bind_eq_Some_conv
       dest: start_and_checkpoint_clock split: if_splits)

lemma advance_and_checkpoint_2_other:
  assumes "advance_and_checkpoint_2 h q now = Some h1" and "q \<noteq> p"
  shows "clock h1 p = clock h p"
  using assms
  by (auto simp: advance_and_checkpoint_2_def bind_eq_Some_conv
      dest: advance_and_checkpoint_other split: option.splits)

lemma stimer_advance_clock:
  assumes "stimer_advance h t now = Some h1" and "t \<noteq> Some p"
  shows "clock h1 p = clock h p"
  using assms
  by (cases t)
     (auto simp: stimer_advance_def bind_eq_Some_conv
       dest!: advance_and_checkpoint_2_other [where p = p] split: if_splits)

subsection \<open>Calls that advance the clock at most once\<close>

lemma advance_and_checkpoint_2_stepped:
  assumes "advance_and_checkpoint_2 h q now = Some h1"
  shows "stepped h h1 p"
  using assms
  by (auto simp: advance_and_checkpoint_2_def bind_eq_Some_conv
      intro: advance_and_checkpoint_stepped stepped_same split: option.splits)

lemma stimer_is_expired_stepped:
  assumes "stimer_is_expired h t now = Some (h1, b)"
  shows "stepped h h1 p"
  using assms
  by (cases t)
     (auto simp: stimer_is_expired_def bind_eq_Some_conv
       intro: advance_and_checkpoint_2_stepped stepped_same)

lemma stimer_get_elapsed_time_stepped:
  assumes "stimer_get_elapsed_time h t d now = Some (h1, r)"
  shows "stepped h h1 p"
  using assms
  by (cases t)
     (auto simp: stimer_get_elapsed_time_def bind_eq_Some_conv
       intro: advance_and_checkpoint_stepped stepped_same split: if_splits)

lemma stimer_stop_stepped:
  assumes "stimer_stop h t now = Some h1"
  shows "stepped h h1 p"
proof (cases t)
  case None
  with assms show ?thesis by (simp add: stimer_stop_def stepped_def)
next
  case (Some q)
  from assms Some obtain ts where ts: "timers h q = Some ts"
    by (auto simp: stimer_stop_def bind_eq_Some_conv)
  show ?thesis
  proof (cases "ctx ts \<noteq> None \<and> is_running ts")
    case False
    with assms Some ts have "h1 = h"
      by (auto simp: stimer_stop_def split: option.splits)
    then show ?thesis by (simp add: stepped_def)
  next
    case True
    from True obtain c where c: "ctx ts = Some c" by auto
    from assms Some ts c True obtain cx where cx: "ctxs h c = Some cx"
      by (auto simp: stimer_stop_def bind_eq_Some_conv)
    from assms Some ts c cx True obtain h2 where
      a: "advance_and_checkpoint h q (tm cx) now = Some h2"
      by (auto simp: stimer_stop_def bind_eq_Some_conv)
    from assms Some ts c cx a True obtain ts2 where ts2: "timers h2 q = Some ts2"
      by (auto simp: stimer_stop_def bind_eq_Some_conv)
    have h1: "h1 = put_timer h2 q (ts2\<lparr>is_running := False\<rparr>)"
      using assms Some ts c cx a ts2 True by (simp add: stimer_stop_def)
    have "clock h1 p = clock h2 p" using h1 ts2 by (simp add: clock_Some)
    with advance_and_checkpoint_stepped [OF a] show ?thesis by (rule stepped_after)
  qed
qed

lemma do_call_stepped:
  assumes "do_call h c = Some h1" and "\<not> resets p c"
  shows "stepped h h1 p"
proof (cases c)
  case (Alloc_context m mt ns)
  with assms show ?thesis
    by (auto simp: stimer_alloc_context_def intro!: stepped_same split: option.splits)
next
  case (Free_context x)
  with assms show ?thesis by (auto intro!: stepped_same dest: stimer_free_context_clock)
next
  case (Execute_context x now)
  with assms show ?thesis by (auto intro: stimer_execute_context_stepped)
next
  case (Alloc x m)
  with assms show ?thesis by (auto intro!: stepped_same dest: stimer_alloc_clock)
next
  case (Free t)
  with assms show ?thesis by (auto intro!: stepped_same dest: stimer_free_clock)
next
  case (Start t now)
  with assms show ?thesis by (auto intro!: stepped_same dest: stimer_start_clock)
next
  case (Stop t now)
  with assms show ?thesis by (auto intro: stimer_stop_stepped)
next
  case (Get_elapsed_time t d now)
  with assms show ?thesis by (auto intro: stimer_get_elapsed_time_stepped)
next
  case (Expire_from_now t d now)
  with assms show ?thesis by (auto intro!: stepped_same dest: stimer_expire_from_now_clock)
next
  case (Expire_from_now_s t n now)
  with assms show ?thesis by (auto intro!: stepped_same dest: stimer_expire_from_now_s_clock)
next
  case (Expire_from_now_ms t n now)
  with assms show ?thesis by (auto intro!: stepped_same dest: stimer_expire_from_now_ms_clock)
next
  case (Expire_from_now_us t n now)
  with assms show ?thesis by (auto intro!: stepped_same dest: stimer_expire_from_now_us_clock)
next
  case (Expire_from_now_ns t n now)
  with assms show ?thesis by (auto intro!: stepped_same dest: stimer_expire_from_now_ns_clock)
next
  case (Is_expired t now)
  with assms show ?thesis by (auto intro: stimer_is_expired_stepped)
next
  case (Restart_from_now t now)
  with assms show ?thesis by (auto intro!: stepped_same dest: stimer_restart_from_now_clock)
next
  case (Advance t now)
  with assms show ?thesis by (auto intro!: stepped_same dest: stimer_advance_clock)
qed

subsection \<open>An expired timer stays expired\<close>

lemma stepped_expired:
  assumes "stepped h h1 p" and "calm h p" and "expired_in h p"
  shows "expired_in h1 p"
proof -
  from assms(3) obtain ts where ts: "timers h p = Some ts"
    and ge: "timer_duration_ge (elapsed ts) (expire_interval ts)"
    by (auto simp: expired_in_def split: option.splits)
  from assms(2) ts have c: "nanoseconds (elapsed ts) < 1000000000"
    "seconds (elapsed ts) < 4294967295"
    by (simp_all add: calm_def)
  from assms(1) show ?thesis
    unfolding stepped_def
  proof
    assume "clock h1 p = clock h p"
    with ts ge show ?thesis
      by (auto simp: clock_def expired_in_def split: option.splits)
  next
    assume "\<exists>e ei n. clock h p = Some (e, ei) \<and>
              clock h1 p = Some (advance_timer_duration e n, ei)"
    then obtain n where "clock h1 p =
        Some (advance_timer_duration (elapsed ts) n, expire_interval ts)"
      using ts by (auto simp: clock_def)
    then obtain ts1 where "timers h1 p = Some ts1"
      and "elapsed ts1 = advance_timer_duration (elapsed ts) n"
      and "expire_interval ts1 = expire_interval ts"
      by (auto simp: clock_def)
    with advance_timer_duration_ge [OF ge c, of n] show ?thesis
      by (simp add: expired_in_def)
  qed
qed

lemma run_expired:
  assumes "run h cs = Some h2" and "\<forall>c\<in>set cs. \<not> resets p c" and "steady h p cs"
    and "expired_in h p"
  shows "expired_in h2 p \<and> calm h2 p"
  using assms
proof (induction cs arbitrary: h)
  case Nil
  then show ?case by simp
next
  case (Cons c cs)
  from Cons.prems(1) obtain h1 where a: "do_call h c = Some h1" and b: "run h1 cs = Some h2"
    by (auto simp: bind_eq_Some_conv)
  from Cons.prems(3) a have calm: "calm h p" and s: "steady h1 p cs" by simp_all
  from Cons.prems(2) have nr: "\<not> resets p c" and rest: "\<forall>c\<in>set cs. \<not> resets p c" by simp_all
  from stepped_expired [OF do_call_stepped [OF a nr] calm Cons.prems(4)]
  have "expired_in h1 p" .
  from Cons.IH [OF b rest s this] show ?case .
qed

lemma stimer_is_expired_true:
  assumes "stimer_is_expired h (Some p) now = Some (h1, True)"
  shows "expired_in h1 p"
  using assms
  by (cases rule: stimer_is_expired_cases) (auto simp: expired_in_def)

lemma expired_poll:
  assumes "expired_in h p" and "calm h p" and "timers h p = Some ts" and "no_dangling_ctx h ts"
  shows "\<exists>h1. stimer_is_expired h (Some p) now = Some (h1, True)"
proof -
  from stimer_is_expired_returns [OF assms(3,4)] obtain h1 b
    where r: "stimer_is_expired h (Some p) now = Some (h1, b)" by blast
  from stepped_expired [OF stimer_is_expired_stepped [OF r] assms(2,1)]
  have e: "expired_in h1 p" .
  from r have "b = expired_in h1 p"
    by (cases rule: stimer_is_expired_cases) (auto simp: expired_in_def)
  with e r show ?thesis by simp
qed

text \<open>
  C6, as amended. After a call of \<open>stimer_is_expired\<close> that returned \<open>b\<close>: any number of
  further calls at the same sample return \<open>b\<close> again and change nothing, provided the
  counter math reports no progress between identical samples. And if \<open>b\<close> is true, then
  after any sequence of calls that returns, contains no reset of the timer, and before each
  of whose calls (and after the last) the elapsed duration is canonical with its seconds
  field below \<open>2^32 - 1\<close>, a call of \<open>stimer_is_expired\<close> on the timer, whose context
  pointer is not dangling, returns true at any sample.
\<close>

theorem is_expired_repeatable:
  assumes "stimer_is_expired h (Some p) now = Some (h1, b)"
  shows "(no_progress_at h p now \<longrightarrow> poll h1 p (replicate n now) = Some (h1, replicate n b)) \<and>
         (b \<and> (\<forall>c\<in>set cs. \<not> resets p c) \<and> steady h1 p cs \<and> run h1 cs = Some h2 \<and>
          (\<exists>ts2. timers h2 p = Some ts2 \<and> no_dangling_ctx h2 ts2) \<longrightarrow>
            (\<exists>h3. stimer_is_expired h2 (Some p) now2 = Some (h3, True)))"
proof (intro conjI impI)
  assume "no_progress_at h p now"
  with assms show "poll h1 p (replicate n now) = Some (h1, replicate n b)"
    by (rule poll_same_sample)
next
  assume a: "b \<and> (\<forall>c\<in>set cs. \<not> resets p c) \<and> steady h1 p cs \<and> run h1 cs = Some h2 \<and>
          (\<exists>ts2. timers h2 p = Some ts2 \<and> no_dangling_ctx h2 ts2)"
  with assms have e: "expired_in h1 p" by (auto intro: stimer_is_expired_true)
  from a have r: "run h1 cs = Some h2" and nr: "\<forall>c\<in>set cs. \<not> resets p c"
    and s: "steady h1 p cs" by simp_all
  from run_expired [OF r nr s e] have e2: "expired_in h2 p" and c2: "calm h2 p" by simp_all
  from a obtain ts2 where "timers h2 p = Some ts2" and "no_dangling_ctx h2 ts2" by blast
  from expired_poll [OF e2 c2 this]
  show "\<exists>h3. stimer_is_expired h2 (Some p) now2 = Some (h3, True)" .
qed

lemma ex_visits_run: "run ex_polled ex_visits = Some ex_later"
  by (simp add: ex_visits_def ex_later_def ex_polled_def stimer_execute_context_def
      execute_loop.simps stimer_get_elapsed_time_def stimer_is_expired_def
      advance_and_checkpoint_2_def advance_and_checkpoint_def ex_heap_def ex_timer_def
      ex_ctx_def tm_initialize_def advance_timer_duration_def word_sless_alt put_timer_def)

lemma ex_visits_steady: "steady ex_polled 4 ex_visits"
  by (simp add: ex_visits_def ex_polled_def calm_def stimer_execute_context_def
      execute_loop.simps stimer_get_elapsed_time_def stimer_is_expired_def
      advance_and_checkpoint_2_def advance_and_checkpoint_def ex_heap_def ex_timer_def
      ex_ctx_def tm_initialize_def advance_timer_duration_def word_sless_alt put_timer_def)

lemma ex_later_timer:
  "timers ex_later 4 =
   Some (ex_timer\<lparr>checkpoint := 9, elapsed := \<lparr>seconds = 0, nanoseconds = 7000000\<rparr>\<rparr>)"
  by (simp add: ex_later_def)

lemma ex_later_ctx:
  "no_dangling_ctx ex_later
     (ex_timer\<lparr>checkpoint := 9, elapsed := \<lparr>seconds = 0, nanoseconds = 7000000\<rparr>\<rparr>)"
  by (simp add: no_dangling_ctx_def ex_later_def ex_timer_def ex_heap_def)

theorem is_expired_repeatable_witness:
  "stimer_is_expired ex_heap (Some 4) 6 = Some (ex_polled, True) \<and>
   no_progress_at ex_heap 4 6 \<and>
   list_all (\<lambda>c. \<not> resets 4 c) ex_visits \<and>
   steady ex_polled 4 ex_visits \<and>
   run ex_polled ex_visits = Some ex_later \<and>
   poll ex_polled 4 [6, 6, 6] = Some (ex_polled, [True, True, True]) \<and>
   (\<exists>h3. stimer_is_expired ex_later (Some 4) 12 = Some (h3, True))"
proof -
  have nr: "\<forall>c\<in>set ex_visits. \<not> resets 4 c" by (simp add: ex_visits_def)
  have t: "\<exists>ts2. timers ex_later 4 = Some ts2 \<and> no_dangling_ctx ex_later ts2"
    using ex_later_timer ex_later_ctx by blast
  from is_expired_repeatable [OF ex_poll_6, of 3 ex_visits ex_later 12]
    ex_no_progress nr ex_visits_steady ex_visits_run t
  have "poll ex_polled 4 (replicate 3 6) = Some (ex_polled, replicate 3 True)"
    and "\<exists>h3. stimer_is_expired ex_later (Some 4) 12 = Some (h3, True)"
    by blast+
  with ex_poll_6 ex_no_progress nr ex_visits_steady ex_visits_run show ?thesis
    by (simp add: numeral_3_eq_3 list_all_iff)
qed

text \<open>
  An expired timer can read as not expired again without any reset: the first poll
  advances elapsed by 2.000001 s in one step, which leaves 1000001000 in the nanoseconds
  field, and the advance of the second poll then wraps that field to zero.
\<close>

theorem is_expired_repeatable_counterexample:
  "run empty_heap [Alloc_context (Some 0) 4294967295 2, Alloc (Some 0) (Some 4),
                   Expire_from_now (Some 4) (Some \<lparr>seconds = 1, nanoseconds = 500\<rparr>) 0]
     = Some ex_fast \<and>
   map_option snd (poll ex_fast 4 [1000000500, 2647483648]) = Some [True, False]"
  by (rule conjI [OF ex_fast_reachable])
     (simp add: stimer_is_expired_def advance_and_checkpoint_2_def advance_and_checkpoint_def
       ex_fast_def tm_initialize_def advance_timer_duration_def word_sless_alt put_timer_def
       timer_duration_ge_def)

section \<open>Fresh timers\<close>

lemma stopped_is_expired:
  assumes "stopped_with h p e ei" and "timers h p = Some ts" and "no_dangling_ctx h ts"
  shows "stimer_is_expired h (Some p) now = Some (h, timer_duration_ge e ei)"
  using assms
  by (auto simp: stimer_is_expired_def advance_and_checkpoint_2_def advance_and_checkpoint_def
      stopped_with_def no_dangling_ctx_def split: option.splits)

lemma stimer_alloc_fresh:
  assumes "ctxs h c = Some cx"
  shows "\<exists>h1 ts. stimer_alloc h (Some c) (Some p) = Some (h1, Some p) \<and>
           timers h1 p = Some ts \<and> no_dangling_ctx h1 ts \<and>
           stopped_with h1 p \<lparr>seconds = 0, nanoseconds = 0\<rparr> \<lparr>seconds = 0, nanoseconds = 0\<rparr>"
  using assms
  by (simp add: stimer_alloc_def link_timer_def Let_def stopped_with_def no_dangling_ctx_def)

text \<open>
  C10. Allocating a timer on an existing context returns, and \<open>stimer_is_expired\<close> on the
  new timer returns true at once (elapsed and expire interval are both zero, and the call
  does not require the timer to run). It still returns true after any sequence of calls
  that contains no start or expiration setter of that timer, as long as the timer's
  context pointer is not dangling.
\<close>

theorem fresh_timer_is_expired:
  assumes "ctxs h c = Some cx"
  shows "\<exists>h1. stimer_alloc h (Some c) (Some p) = Some (h1, Some p) \<and>
              stimer_is_expired h1 (Some p) now = Some (h1, True) \<and>
              (\<forall>cs h2 ts2.
                 (\<forall>k\<in>set cs. \<not> restarts p k) \<and> run h1 cs = Some h2 \<and>
                 timers h2 p = Some ts2 \<and> no_dangling_ctx h2 ts2 \<longrightarrow>
                 stimer_is_expired h2 (Some p) now = Some (h2, True))"
proof -
  let ?z = "\<lparr>seconds = 0, nanoseconds = 0\<rparr>"
  obtain h1 ts where a: "stimer_alloc h (Some c) (Some p) = Some (h1, Some p)"
    and t: "timers h1 p = Some ts" and d: "no_dangling_ctx h1 ts"
    and s: "stopped_with h1 p ?z ?z"
    using stimer_alloc_fresh [OF assms] by blast
  have z: "timer_duration_ge ?z ?z" by (simp add: timer_duration_ge_def)
  have 1: "stimer_is_expired h1 (Some p) now = Some (h1, True)"
    using stopped_is_expired [OF s t d] z by simp
  have 2: "stimer_is_expired h2 (Some p) now = Some (h2, True)"
    if "\<forall>k\<in>set cs. \<not> restarts p k" and "run h1 cs = Some h2"
      and "timers h2 p = Some ts2" and "no_dangling_ctx h2 ts2" for cs h2 ts2
    using stopped_is_expired [OF run_stopped [OF that(2) s that(1)] that(3,4)] z by simp
  from a 1 2 show ?thesis by blast
qed

lemma ex_alloc_eq: "stimer_alloc ex_heap (Some 0) (Some 7) = Some (ex_alloc, Some 7)"
  by (simp add: stimer_alloc_def link_timer_def ex_alloc_def ex_heap_def ex_ctx_def Let_def
      put_timer_def put_ctx_def)

lemma ex_sweep: "run ex_alloc [Execute_context (Some 0) 9, Stop (Some 7) 10] = Some ex_swept"
  by (simp add: stimer_execute_context_def execute_loop.simps stimer_stop_def
      advance_and_checkpoint_def ex_swept_def ex_alloc_def ex_heap_def ex_ctx_def ex_timer_def
      tm_initialize_def advance_timer_duration_def word_sless_alt put_timer_def put_ctx_def
      fun_upd_twist)

theorem fresh_timer_is_expired_witness:
  "ctxs ex_heap 0 = Some ex_ctx \<and>
   stimer_alloc ex_heap (Some 0) (Some 7) = Some (ex_alloc, Some 7) \<and>
   stimer_is_expired ex_alloc (Some 7) 12 = Some (ex_alloc, True) \<and>
   run ex_alloc [Execute_context (Some 0) 9, Stop (Some 7) 10] = Some ex_swept \<and>
   stimer_is_expired ex_swept (Some 7) 12 = Some (ex_swept, True)"
proof -
  let ?cs = "[Execute_context (Some 0) 9, Stop (Some 7) 10]"
  let ?ts = "\<lparr>ctx = Some 0, nxt = Some 4, checkpoint = 0,
         expire_interval = \<lparr>seconds = 0, nanoseconds = 0\<rparr>,
         elapsed = \<lparr>seconds = 0, nanoseconds = 0\<rparr>, is_running = False\<rparr>"
  have a: "\<forall>k\<in>set ?cs. \<not> restarts 7 k" by simp
  have b: "timers ex_swept 7 = Some ?ts" by (simp add: ex_swept_def ex_alloc_def)
  have c: "no_dangling_ctx ex_swept ?ts"
    by (simp add: no_dangling_ctx_def ex_swept_def ex_alloc_def)
  obtain h1 where 1: "stimer_alloc ex_heap (Some 0) (Some 7) = Some (h1, Some 7)"
    and 2: "stimer_is_expired h1 (Some 7) 12 = Some (h1, True)"
    and 3: "\<forall>cs h2 ts2.
              (\<forall>k\<in>set cs. \<not> restarts 7 k) \<and> run h1 cs = Some h2 \<and>
              timers h2 7 = Some ts2 \<and> no_dangling_ctx h2 ts2 \<longrightarrow>
              stimer_is_expired h2 (Some 7) 12 = Some (h2, True)"
    using fresh_timer_is_expired [OF ex_heap_ctx, of 7 12] by blast
  from 1 have h1: "h1 = ex_alloc" by (simp add: ex_alloc_eq)
  have "stimer_is_expired ex_swept (Some 7) 12 = Some (ex_swept, True)"
    using 3 [rule_format, of ?cs ex_swept ?ts] a b c ex_sweep h1 by blast
  with 2 h1 ex_sweep ex_alloc_eq ex_heap_ctx show ?thesis by simp
qed

end
